theory Spec2Isabelle
  imports Main "HOL-Library.Word"
begin

section \<open>Byte fragments and the binary assembler (chapter01.ts)\<close>

text \<open>
  The TypeScript type \<^verbatim>\<open>type bytes = (number | bytes)[]\<close> is an array whose items are
  numbers or nested arrays.  An item is a \<open>frag\<close>, an array is a \<open>frag list\<close>.  Every
  number that reaches these functions is an integer (opcodes, lengths, indices, parsed
  decimal literals, and \<open>-1\<close> from \<^verbatim>\<open>indexOf\<close>), so JavaScript numbers are modelled by
  \<open>int\<close>.
\<close>

datatype frag = B int | L "frag list"

type_synonym bytes = "frag list"

text \<open>
  The errors: the three \<^verbatim>\<open>throw\<close>s of the sources ("Not Implemented", "undeclared
  identifier", "Unhandled binary op") and the TypeError that JavaScript raises on a
  property access on \<^verbatim>\<open>undefined\<close> or a method call on a value without that method.
\<close>

datatype error =
    NotImplemented
  | UndeclaredIdentifier string
  | UnhandledBinaryOp string
  | TypeError

text \<open>
  A call that may throw returns \<open>error + 'a\<close>; \<open>bindE m f\<close> runs \<open>f\<close> on the value of \<open>m\<close>
  and passes a throw of \<open>m\<close> on, as JavaScript does when one call follows another.
\<close>

definition bindE :: "error + 'a \<Rightarrow> ('a \<Rightarrow> error + 'b) \<Rightarrow> error + 'b" where
  "bindE m f = (case m of Inl e \<Rightarrow> Inl e | Inr x \<Rightarrow> f x)"

lemma bindE_cong [fundef_cong]:
  "m = m' \<Longrightarrow> (\<And>x. m' = Inr x \<Longrightarrow> f x = f' x) \<Longrightarrow> bindE m f = bindE m' f'"
  by (auto simp: bindE_def split: sum.splits)

lemma bindE_Inr [simp]: "bindE (Inr x) f = f x"
  by (simp add: bindE_def)

lemma bindE_Inl [simp]: "bindE (Inl e) f = Inl e"
  by (simp add: bindE_def)

lemma bindE_eq_Inr: "bindE m f = Inr y \<longleftrightarrow> (\<exists>x. m = Inr x \<and> f x = Inr y)"
  by (cases m) simp_all

lemma bindE_eq_Inl:
  "bindE m f = Inl e \<longleftrightarrow> m = Inl e \<or> (\<exists>x. m = Inr x \<and> f x = Inl e)"
  by (cases m) simp_all

text \<open>\<^verbatim>\<open>arr.flat(Infinity)\<close>: the numbers of the nested array, left to right.\<close>

fun flat_item :: "frag \<Rightarrow> int list" where
  "flat_item (B n) = [n]"
| "flat_item (L xs) = concat (map flat_item xs)"

definition flatten :: "bytes \<Rightarrow> int list" where
  "flatten arr = concat (map flat_item arr)"

text \<open>
  \<^verbatim>\<open>TextEncoder().encode(s)\<close>: a source string is kept as the list of its UTF-8 bytes
  (\<open>string\<close> is a list of 8-bit characters), so encoding reads each character's code.
\<close>

definition stringToBytes :: "string \<Rightarrow> int list" where
  "stringToBytes s = map (\<lambda>c. int (of_char c)) s"

definition int32ToBytes :: "int \<Rightarrow> int list" where
  "int32ToBytes v =
     [v mod 256, (v div 256) mod 256, (v div 65536) mod 256, (v div 16777216) mod 256]"

definition u32 :: "int \<Rightarrow> error + bytes" where
  "u32 v = (if v \<le> 127 then Inr [B v] else Inl NotImplemented)"

definition i32 :: "int \<Rightarrow> error + bytes" where
  "i32 v = (if v \<le> 63 then Inr [B v] else Inl NotImplemented)"

definition vec :: "bytes \<Rightarrow> error + bytes" where
  "vec elements = bindE (u32 (int (length elements))) (\<lambda>n. Inr (L n # elements))"

definition magic :: "bytes" where
  "magic = map B (stringToBytes [CHR 0x00, CHR ''a'', CHR ''s'', CHR ''m''])"

definition version :: "bytes" where
  "version = map B (int32ToBytes 1)"

definition section' :: "int \<Rightarrow> bytes \<Rightarrow> error + bytes" where
  "section' id' contents =
     (let sizeInBytes = int (length (flatten contents)) in
      bindE (u32 sizeInBytes) (\<lambda>n. Inr [B id', L n, L contents]))"

definition SECTION_ID_TYPE :: int where [simp]: "SECTION_ID_TYPE = 1"
definition SECTION_ID_FUNCTION :: int where [simp]: "SECTION_ID_FUNCTION = 3"
definition SECTION_ID_EXPORT :: int where [simp]: "SECTION_ID_EXPORT = 7"
definition SECTION_ID_CODE :: int where [simp]: "SECTION_ID_CODE = 10"
definition TYPE_FUNCTION :: int where [simp]: "TYPE_FUNCTION = 0x60"

definition functype :: "bytes \<Rightarrow> bytes \<Rightarrow> error + bytes" where
  "functype paramTypes resultTypes =
     bindE (vec paramTypes) (\<lambda>ps.
     bindE (vec resultTypes) (\<lambda>rs. Inr [B TYPE_FUNCTION, L ps, L rs]))"

definition typesec :: "bytes \<Rightarrow> error + bytes" where
  "typesec functypes = bindE (vec functypes) (\<lambda>v. section' SECTION_ID_TYPE v)"

definition typeidx :: "int \<Rightarrow> error + bytes" where
  "typeidx = u32"

definition funcsec :: "bytes \<Rightarrow> error + bytes" where
  "funcsec typeidxs = bindE (vec typeidxs) (\<lambda>v. section' SECTION_ID_FUNCTION v)"

definition code :: "bytes \<Rightarrow> error + bytes" where
  "code func =
     (let sizeInBytes = int (length (flatten func)) in
      bindE (u32 sizeInBytes) (\<lambda>n. Inr [L n, L func]))"

definition func :: "bytes \<Rightarrow> bytes \<Rightarrow> error + bytes" where
  "func locals body = bindE (vec locals) (\<lambda>v. Inr [L v, L body])"

definition codesec :: "bytes \<Rightarrow> error + bytes" where
  "codesec codes = bindE (vec codes) (\<lambda>v. section' SECTION_ID_CODE v)"

definition name :: "string \<Rightarrow> error + bytes" where
  "name s = vec (map B (stringToBytes s))"

definition export' :: "string \<Rightarrow> bytes \<Rightarrow> error + bytes" where
  "export' nm exportdesc = bindE (name nm) (\<lambda>n. Inr [L n, L exportdesc])"

definition exportsec :: "bytes \<Rightarrow> error + bytes" where
  "exportsec exports = bindE (vec exports) (\<lambda>v. section' SECTION_ID_EXPORT v)"

definition funcidx :: "int \<Rightarrow> error + bytes" where
  "funcidx = u32"

definition exportdesc_func :: "int \<Rightarrow> error + bytes" where
  "exportdesc_func idx' = bindE (funcidx idx') (\<lambda>i. Inr [B 0x00, L i])"

definition module :: "bytes \<Rightarrow> bytes" where
  "module sections = [L magic, L version, L sections]"

section \<open>Syntax trees (the grammar of chapter06.ts)\<close>

text \<open>
  The parser is an external library; the passes walk its tree, one node per grammar
  rule.  The tree type follows the grammar of chapter06.ts rule by rule:
  \<^verbatim>\<open>
    Module = FunctionDecl*
    Statement = LetStatement | IfStatement | WhileStatement | ExprStatement
    LetStatement = let identifier "=" Expr ";"
    IfStatement = if Expr BlockStatements (else (BlockStatements | IfStatement))?
    WhileStatement = while Expr BlockStatements
    FunctionDecl = func identifier "(" Params? ")" BlockExpr
    Params = identifier ("," identifier)*
    BlockExpr = "{" Statement* Expr "}"
    BlockStatements = "{" Statement* "}"
    ExprStatement = Expr ";"
    Expr = AssignmentExpr  -- assignment
         | PrimaryExpr (binaryOp PrimaryExpr)*  -- binary
    AssignmentExpr = identifier ":=" Expr
    PrimaryExpr = number  -- num | CallExpr | identifier  -- var | IfExpr
    CallExpr = identifier "(" Args? ")"
    Args = Expr ("," Expr)*
    IfExpr = if Expr BlockExpr else (BlockExpr | IfExpr)
  \<close>
  An identifier is its source string, a number its decimal value (\<^verbatim>\<open>number = digit+\<close>,
  read by \<^verbatim>\<open>parseInt(_, 10)\<close>; where \<^verbatim>\<open>parseInt\<close> rounds, the value is far above the
  bound of \<^verbatim>\<open>i32\<close> either way), an operator its token.  The iteration
  \<^verbatim>\<open>(binaryOp PrimaryExpr)*\<close> is the list of its (operator, operand) pairs.  An absent
  \<^verbatim>\<open>Params?\<close> or \<^verbatim>\<open>Args?\<close> is the empty list (a present one has at least one element).
\<close>

datatype expr =
    AssignmentExpr string expr
  | Expr_binary primary "(string \<times> primary) list"
and primary =
    PrimaryExpr_num nat
  | CallExpr string "expr list"
  | PrimaryExpr_var string
  | PrimaryExpr_if ifExpr
and ifExpr =
    IfExpr expr blockExpr elseExpr
and elseExpr =
    ElseBlockExpr blockExpr
  | ElseIfExpr ifExpr
and blockExpr =
    BlockExpr "statement list" expr
and statement =
    LetStatement string expr
  | Statement_if ifStatement
  | WhileStatement expr "statement list"
  | ExprStatement expr
and ifStatement =
    IfStatement expr "statement list" "elseStatement option"
and elseStatement =
    ElseBlockStatements "statement list"
  | ElseIfStatement ifStatement

datatype functionDecl = FunctionDecl string "string list" blockExpr

type_synonym Module = "functionDecl list"

section \<open>Symbols, scopes and the store of Map objects (chapter04.ts, chapter05.ts)\<close>

text \<open>
  \<^verbatim>\<open>type Symbol = { name: string; idx: number; what: "param" | "local" }\<close> and
  \<^verbatim>\<open>type Scope = Map<string, Symbol | Scope>\<close>.  A JavaScript \<^verbatim>\<open>Map\<close> is a mutable
  object that several places may hold (the module scope and the scope stack hold the
  same function scope), so Map objects live in a store and are named by their address.
  The contents of a Map is the list of its entries in insertion order.
\<close>

datatype what = Param | Local

record Symbol =
  sym_name :: string
  idx :: nat
  what :: what

datatype entry = Sym Symbol | Scope nat

type_synonym jsmap = "(string \<times> entry) list"

text \<open>
  \<^verbatim>\<open>Map.prototype.set\<close>: an existing key keeps its place in the insertion order and gets
  the new value; a new key is appended.
\<close>

fun map_set :: "string \<Rightarrow> 'v \<Rightarrow> (string \<times> 'v) list \<Rightarrow> (string \<times> 'v) list" where
  "map_set k v [] = [(k, v)]"
| "map_set k v ((k', v') # m) =
     (if k' = k then (k, v) # m else (k', v') # map_set k v m)"

definition map_get :: "(string \<times> 'v) list \<Rightarrow> string \<Rightarrow> 'v option" where
  "map_get m k = map_of m k"

definition map_has :: "(string \<times> 'v) list \<Rightarrow> string \<Rightarrow> bool" where
  "map_has m k = (k \<in> set (map fst m))"

definition keys :: "(string \<times> 'v) list \<Rightarrow> string list" where
  "keys m = map fst m"

definition values' :: "(string \<times> 'v) list \<Rightarrow> 'v list" where
  "values' m = map snd m"

text \<open>
  The state of \<^verbatim>\<open>buildSymbolTable\<close>: the store of Map objects (\<open>fresh\<close> is the next
  unused address, \<^verbatim>\<open>new Map()\<close> takes it) and the array \<^verbatim>\<open>scopes\<close> of addresses.
\<close>

record tables =
  store :: "nat \<Rightarrow> jsmap"
  fresh :: nat
  scopes :: "nat list"

text \<open>\<^verbatim>\<open>scopes.at(-1)\<close> is \<^verbatim>\<open>undefined\<close> on an empty array.\<close>

definition at_last :: "'a list \<Rightarrow> 'a option" where
  "at_last xs = (if xs = [] then None else Some (last xs))"

text \<open>
  \<^verbatim>\<open>const idx = scopes.at(-1)!.size; scopes.at(-1)!.set(name, {name, idx, what})\<close>, the
  body shared by the \<^verbatim>\<open>Params\<close> loop and \<^verbatim>\<open>LetStatement\<close>.  On an empty stack the
  property access on \<^verbatim>\<open>undefined\<close> throws a TypeError.
\<close>

definition declare_symbol :: "what \<Rightarrow> string \<Rightarrow> tables \<Rightarrow> error + tables" where
  "declare_symbol w x s =
     (case at_last (scopes s) of
        None \<Rightarrow> Inl TypeError
      | Some cur \<Rightarrow>
          (let i = length (store s cur);
               info = \<lparr>sym_name = x, idx = i, what = w\<rparr>
           in Inr (s\<lparr>store := (store s)(cur := map_set x (Sym info) (store s cur))\<rparr>)))"

text \<open>\<^verbatim>\<open>children.forEach((c) => c.buildSymbolTable())\<close>: left to right, the first throw ends it.\<close>

fun forEach :: "('a \<Rightarrow> 's \<Rightarrow> error + 's) \<Rightarrow> 'a list \<Rightarrow> 's \<Rightarrow> error + 's" where
  "forEach f [] s = Inr s"
| "forEach f (x # xs) s = bindE (f x s) (\<lambda>s'. forEach f xs s')"

lemma forEach_cong [fundef_cong]:
  "xs = ys \<Longrightarrow> (\<And>x u. x \<in> set ys \<Longrightarrow> f x u = g x u) \<Longrightarrow> forEach f xs = forEach g ys"
proof (induction ys arbitrary: xs)
  case Nil
  then show ?case by (simp add: fun_eq_iff)
next
  case (Cons y ys)
  have tl: "forEach f ys = forEach g ys"
    using Cons.IH [OF refl] Cons.prems(2) by simp
  have hd: "f y u = g y u" for u
    using Cons.prems(2) by simp
  have "forEach f (y # ys) u = forEach g (y # ys) u" for u
    by (simp add: tl hd)
  then show ?case unfolding Cons.prems(1) by (rule ext)
qed

text \<open>
  The operation \<^verbatim>\<open>buildSymbolTable\<close> of chapter05.ts.  Its \<^verbatim>\<open>_default\<close> action visits
  all children of a node in order; the actions for \<^verbatim>\<open>FunctionDecl\<close>, \<^verbatim>\<open>Params\<close> and
  \<^verbatim>\<open>LetStatement\<close> replace it.  The \<^verbatim>\<open>LetStatement\<close> action declares the identifier and
  visits no child: the initialiser \<^verbatim>\<open>_expr\<close> is not walked.  Identifiers, numbers,
  operators and keywords have no action of their own and no children that have one.
\<close>

fun bst_expr :: "expr \<Rightarrow> tables \<Rightarrow> error + tables"
  and bst_primary :: "primary \<Rightarrow> tables \<Rightarrow> error + tables"
  and bst_ifExpr :: "ifExpr \<Rightarrow> tables \<Rightarrow> error + tables"
  and bst_elseExpr :: "elseExpr \<Rightarrow> tables \<Rightarrow> error + tables"
  and bst_blockExpr :: "blockExpr \<Rightarrow> tables \<Rightarrow> error + tables"
  and bst_statement :: "statement \<Rightarrow> tables \<Rightarrow> error + tables"
  and bst_ifStatement :: "ifStatement \<Rightarrow> tables \<Rightarrow> error + tables"
  and bst_elseStatement :: "elseStatement \<Rightarrow> tables \<Rightarrow> error + tables"
where
  "bst_expr (AssignmentExpr x e) = (\<lambda>s. bst_expr e s)"
| "bst_expr (Expr_binary p rest) = (\<lambda>s.
     bindE (bst_primary p s) (\<lambda>s'. forEach (\<lambda>r. bst_primary (snd r)) rest s'))"
| "bst_primary (PrimaryExpr_num n) = (\<lambda>s. Inr s)"
| "bst_primary (CallExpr f args) = (\<lambda>s. forEach bst_expr args s)"
| "bst_primary (PrimaryExpr_var x) = (\<lambda>s. Inr s)"
| "bst_primary (PrimaryExpr_if i) = (\<lambda>s. bst_ifExpr i s)"
| "bst_ifExpr (IfExpr c t e) = (\<lambda>s.
     bindE (bst_expr c s) (\<lambda>s1.
     bindE (bst_blockExpr t s1) (\<lambda>s2. bst_elseExpr e s2)))"
| "bst_elseExpr (ElseBlockExpr b) = (\<lambda>s. bst_blockExpr b s)"
| "bst_elseExpr (ElseIfExpr i) = (\<lambda>s. bst_ifExpr i s)"
| "bst_blockExpr (BlockExpr ss e) = (\<lambda>s.
     bindE (forEach bst_statement ss s) (\<lambda>s'. bst_expr e s'))"
| "bst_statement (LetStatement x e) = (\<lambda>s. declare_symbol Local x s)"
| "bst_statement (Statement_if i) = (\<lambda>s. bst_ifStatement i s)"
| "bst_statement (WhileStatement c b) = (\<lambda>s.
     bindE (bst_expr c s) (\<lambda>s'. forEach bst_statement b s'))"
| "bst_statement (ExprStatement e) = (\<lambda>s. bst_expr e s)"
| "bst_ifStatement (IfStatement c t e) = (\<lambda>s.
     bindE (bst_expr c s) (\<lambda>s1.
     bindE (forEach bst_statement t s1) (\<lambda>s2.
       (case e of None \<Rightarrow> Inr s2 | Some e' \<Rightarrow> bst_elseStatement e' s2))))"
| "bst_elseStatement (ElseBlockStatements ss) = (\<lambda>s. forEach bst_statement ss s)"
| "bst_elseStatement (ElseIfStatement i) = (\<lambda>s. bst_ifStatement i s)"

text \<open>The \<^verbatim>\<open>Params\<close> action: one symbol of kind "param" per identifier, in order.\<close>

definition bst_Params :: "string list \<Rightarrow> tables \<Rightarrow> error + tables" where
  "bst_Params ids s = forEach (declare_symbol Param) ids s"

text \<open>
  The \<^verbatim>\<open>FunctionDecl\<close> action: \<^verbatim>\<open>const locals = new Map(); scopes.at(-1)!.set(name, locals);
  scopes.push(locals); optParams.child(0)?.buildSymbolTable(); blockExpr.buildSymbolTable();
  scopes.pop()\<close>.
\<close>

fun bst_FunctionDecl :: "functionDecl \<Rightarrow> tables \<Rightarrow> error + tables" where
  "bst_FunctionDecl (FunctionDecl nm params blockExpr) s =
     (case at_last (scopes s) of
        None \<Rightarrow> Inl TypeError
      | Some cur \<Rightarrow>
          (let locals = fresh s;
               s1 = s\<lparr>store := (store s)(locals := []), fresh := Suc locals\<rparr>;
               s2 = s1\<lparr>store := (store s1)(cur := map_set nm (Scope locals) (store s1 cur))\<rparr>;
               s3 = s2\<lparr>scopes := scopes s2 @ [locals]\<rparr>
           in bindE (if params = [] then Inr s3 else bst_Params params s3) (\<lambda>s4.
              bindE (bst_blockExpr blockExpr s4) (\<lambda>s5.
                Inr (s5\<lparr>scopes := butlast (scopes s5)\<rparr>)))))"

text \<open>
  \<^verbatim>\<open>const scopes: Scope[] = [new Map()]; ...; return scopes[0]\<close>.  The result is the
  final store together with \<^verbatim>\<open>scopes[0]\<close> (\<^verbatim>\<open>undefined\<close> on an empty array).
\<close>

definition init_tables :: tables where
  "init_tables = \<lparr>store = (\<lambda>a. []), fresh = 1, scopes = [0]\<rparr>"

definition buildSymbolTable :: "Module \<Rightarrow> error + (nat \<Rightarrow> jsmap) \<times> entry option" where
  "buildSymbolTable m =
     bindE (forEach bst_FunctionDecl m init_tables) (\<lambda>s.
       Inr (store s, case scopes s of [] \<Rightarrow> None | a # as \<Rightarrow> Some (Scope a)))"

section \<open>Code generation (chapter04.ts, chapter06.ts)\<close>

definition instr_i32_const :: int where [simp]: "instr_i32_const = 0x41"
definition instr_i32_eq :: int where [simp]: "instr_i32_eq = 0x46"
definition instr_i32_ne :: int where [simp]: "instr_i32_ne = 0x47"
definition instr_i32_lt_s :: int where [simp]: "instr_i32_lt_s = 0x48"
definition instr_i32_gt_s :: int where [simp]: "instr_i32_gt_s = 0x4a"
definition instr_i32_le_s :: int where [simp]: "instr_i32_le_s = 0x4c"
definition instr_i32_ge_s :: int where [simp]: "instr_i32_ge_s = 0x4e"
definition instr_i32_add :: int where [simp]: "instr_i32_add = 0x6a"
definition instr_i32_sub :: int where [simp]: "instr_i32_sub = 0x6b"
definition instr_i32_and :: int where [simp]: "instr_i32_and = 0x71"
definition instr_i32_or :: int where [simp]: "instr_i32_or = 0x72"
definition instr_local_get :: int where [simp]: "instr_local_get = 0x20"
definition instr_local_set :: int where [simp]: "instr_local_set = 0x21"
definition instr_local_tee :: int where [simp]: "instr_local_tee = 0x22"
definition instr_loop :: int where [simp]: "instr_loop = 0x03"
definition instr_call :: int where [simp]: "instr_call = 0x10"
definition instr_drop :: int where [simp]: "instr_drop = 0x1a"
definition instr_if :: int where [simp]: "instr_if = 0x04"
definition instr_else :: int where [simp]: "instr_else = 0x05"
definition instr_end :: int where [simp]: "instr_end = 0x0b"
definition instr_br :: int where [simp]: "instr_br = 0x0c"
definition valtype_i32 :: int where [simp]: "valtype_i32 = 0x7f"
definition blocktype_empty :: int where [simp]: "blocktype_empty = 0x40"
definition blocktype_i32 :: int where [simp]: "blocktype_i32 = 0x7f"

definition locals :: "int \<Rightarrow> int \<Rightarrow> error + bytes" where
  "locals n type = bindE (u32 n) (\<lambda>v. Inr [L v, B type])"

definition localidx :: "int \<Rightarrow> error + bytes" where
  "localidx = u32"

definition labelidx :: "int \<Rightarrow> error + bytes" where
  "labelidx = u32"

text \<open>
  \<^verbatim>\<open>if (locals.has(identName)) return locals.get(identName)!; throw new Error(...)\<close>.
  \<^verbatim>\<open>has\<close> holds exactly where \<^verbatim>\<open>get\<close> finds an entry, so the inner \<open>None\<close> is never met.
\<close>

definition resolveSymbol :: "string \<Rightarrow> jsmap \<Rightarrow> error + entry" where
  "resolveSymbol identName locals' =
     (if map_has locals' identName
      then (case map_get locals' identName of Some info \<Rightarrow> Inr info | None \<Rightarrow> Inl TypeError)
      else Inl (UndeclaredIdentifier identName))"

text \<open>
  The array \<^verbatim>\<open>scopes\<close> of \<^verbatim>\<open>defineToWasm\<close> holds JavaScript values: the module scope and
  what \<^verbatim>\<open>symbols.get(name)\<close> returned (\<open>None\<close> is \<^verbatim>\<open>undefined\<close>).  Calling a Map method
  on a value that is not a Map throws a TypeError.
\<close>

definition scope_of :: "(nat \<Rightarrow> jsmap) \<Rightarrow> entry option \<Rightarrow> error + jsmap" where
  "scope_of \<sigma> v = (case v of Some (Scope a) \<Rightarrow> Inr (\<sigma> a) | _ \<Rightarrow> Inl TypeError)"

text \<open>\<^verbatim>\<open>resolveSymbol(ident, scopes.at(-1)! as Map<string, Symbol>)\<close>\<close>

definition resolve :: "(nat \<Rightarrow> jsmap) \<Rightarrow> entry option list \<Rightarrow> string \<Rightarrow> error + entry" where
  "resolve \<sigma> scopes' ident =
     bindE (scope_of \<sigma> (case at_last scopes' of None \<Rightarrow> None | Some v \<Rightarrow> v))
       (\<lambda>m. resolveSymbol ident m)"

text \<open>
  \<^verbatim>\<open>localidx(info.idx)\<close>: an entry that is a Map has no \<^verbatim>\<open>idx\<close>, and
  \<^verbatim>\<open>undefined <= 127\<close> is false, so \<^verbatim>\<open>u32\<close> throws.
\<close>

definition localidx_of :: "entry \<Rightarrow> error + bytes" where
  "localidx_of info =
     (case info of Sym sy \<Rightarrow> localidx (int (idx sy)) | Scope a \<Rightarrow> Inl NotImplemented)"

text \<open>\<^verbatim>\<open>funcNames.indexOf(name)\<close>: the first position of the name, or \<open>-1\<close>.\<close>

fun indexOf :: "'a list \<Rightarrow> 'a \<Rightarrow> int" where
  "indexOf [] x = -1"
| "indexOf (y # ys) x =
     (if y = x then 0 else (let i = indexOf ys x in if i = -1 then -1 else i + 1))"

text \<open>The table \<^verbatim>\<open>instructionByOp\<close> and the \<^verbatim>\<open>Object.hasOwn\<close> test of \<^verbatim>\<open>binaryOp\<close>.\<close>

definition instructionByOp :: "(string \<times> int) list" where
  "instructionByOp =
     [(''+'', instr_i32_add), (''-'', instr_i32_sub), (''=='', instr_i32_eq),
      (''!='', instr_i32_ne), (''<'', instr_i32_lt_s), (''<='', instr_i32_le_s),
      (''>'', instr_i32_gt_s), (''>='', instr_i32_ge_s), (''and'', instr_i32_and),
      (''or'', instr_i32_or)]"

definition binaryOp :: "string \<Rightarrow> error + int" where
  "binaryOp op =
     (case map_of instructionByOp op of
        None \<Rightarrow> Inl (UnhandledBinaryOp op)
      | Some i \<Rightarrow> Inr i)"

text \<open>\<^verbatim>\<open>xs.map((c) => c.toWasm())\<close>: left to right, the first throw ends it.\<close>

fun mapE :: "('a \<Rightarrow> error + 'b) \<Rightarrow> 'a list \<Rightarrow> error + 'b list" where
  "mapE f [] = Inr []"
| "mapE f (x # xs) = bindE (f x) (\<lambda>y. bindE (mapE f xs) (\<lambda>ys. Inr (y # ys)))"

lemma mapE_cong [fundef_cong]:
  "xs = ys \<Longrightarrow> (\<And>x. x \<in> set ys \<Longrightarrow> f x = g x) \<Longrightarrow> mapE f xs = mapE g ys"
proof (induction ys arbitrary: xs)
  case Nil
  then show ?case by simp
next
  case (Cons y ys)
  have "mapE f ys = mapE g ys"
    using Cons.IH [OF refl] Cons.prems(2) by simp
  then show ?case using Cons.prems by simp
qed

text \<open>
  The operation \<^verbatim>\<open>toWasm\<close> of chapter06.ts.  Its second argument is what the actions
  read besides the node: the store \<open>\<sigma>\<close> of Map objects and the array \<^verbatim>\<open>scopes\<close> (no
  action inside a function body changes either).  The order of the \<open>bindE\<close>s is
  JavaScript's order of evaluation: \<^verbatim>\<open>resolveSymbol\<close> runs before the array literal is
  built, and \<^verbatim>\<open>IfStatement\<close> builds \<^verbatim>\<open>elseFrag\<close> first.
\<close>

fun toWasm_expr :: "expr \<Rightarrow> (nat \<Rightarrow> jsmap) \<times> entry option list \<Rightarrow> error + bytes"
  and toWasm_primary :: "primary \<Rightarrow> (nat \<Rightarrow> jsmap) \<times> entry option list \<Rightarrow> error + bytes"
  and toWasm_ifExpr :: "ifExpr \<Rightarrow> (nat \<Rightarrow> jsmap) \<times> entry option list \<Rightarrow> error + bytes"
  and toWasm_elseExpr :: "elseExpr \<Rightarrow> (nat \<Rightarrow> jsmap) \<times> entry option list \<Rightarrow> error + bytes"
  and toWasm_blockExpr :: "blockExpr \<Rightarrow> (nat \<Rightarrow> jsmap) \<times> entry option list \<Rightarrow> error + bytes"
  and toWasm_statement :: "statement \<Rightarrow> (nat \<Rightarrow> jsmap) \<times> entry option list \<Rightarrow> error + bytes"
  and toWasm_ifStatement :: "ifStatement \<Rightarrow> (nat \<Rightarrow> jsmap) \<times> entry option list \<Rightarrow> error + bytes"
  and toWasm_elseStatement :: "elseStatement \<Rightarrow> (nat \<Rightarrow> jsmap) \<times> entry option list \<Rightarrow> error + bytes"
where
  "toWasm_expr (AssignmentExpr ident e) = (\<lambda>(\<sigma>, sc).
     bindE (resolve \<sigma> sc ident) (\<lambda>info.
     bindE (toWasm_expr e (\<sigma>, sc)) (\<lambda>c.
     bindE (localidx_of info) (\<lambda>i. Inr [L c, B instr_local_tee, L i]))))"
| "toWasm_expr (Expr_binary num rest) = (\<lambda>(\<sigma>, sc).
     bindE (toWasm_primary num (\<sigma>, sc)) (\<lambda>c.
     bindE (mapE (\<lambda>r. bindE (toWasm_primary (snd r) (\<sigma>, sc)) (\<lambda>operand.
                        bindE (binaryOp (fst r)) (\<lambda>op. Inr [L operand, B op]))) rest) (\<lambda>pushed.
     Inr (L c # concat pushed))))"
| "toWasm_primary (PrimaryExpr_num n) = (\<lambda>(\<sigma>, sc).
     bindE (i32 (int n)) (\<lambda>v. Inr (B instr_i32_const # v)))"
| "toWasm_primary (CallExpr nm args) = (\<lambda>(\<sigma>, sc).
     bindE (scope_of \<sigma> (case sc of [] \<Rightarrow> None | v # vs \<Rightarrow> v)) (\<lambda>m.
       (let funcNames = keys m; i = indexOf funcNames nm in
        bindE (if args = [] then Inr []
              else bindE (mapE (\<lambda>a. toWasm_expr a (\<sigma>, sc)) args) (\<lambda>cs. Inr [L (map L cs)])) (\<lambda>optArgs.
        bindE (funcidx i) (\<lambda>fi. Inr [L optArgs, L [B instr_call, L fi]])))))"
| "toWasm_primary (PrimaryExpr_var ident) = (\<lambda>(\<sigma>, sc).
     bindE (resolve \<sigma> sc ident) (\<lambda>info.
     bindE (localidx_of info) (\<lambda>i. Inr [B instr_local_get, L i])))"
| "toWasm_primary (PrimaryExpr_if i) = (\<lambda>(\<sigma>, sc). toWasm_ifExpr i (\<sigma>, sc))"
| "toWasm_ifExpr (IfExpr cond thenBlock elseBlock) = (\<lambda>(\<sigma>, sc).
     bindE (toWasm_expr cond (\<sigma>, sc)) (\<lambda>c.
     bindE (toWasm_blockExpr thenBlock (\<sigma>, sc)) (\<lambda>t.
     bindE (toWasm_elseExpr elseBlock (\<sigma>, sc)) (\<lambda>e.
       Inr [L c, L [B instr_if, B blocktype_i32], L t, B instr_else, L e, B instr_end]))))"
| "toWasm_elseExpr (ElseBlockExpr b) = (\<lambda>(\<sigma>, sc). toWasm_blockExpr b (\<sigma>, sc))"
| "toWasm_elseExpr (ElseIfExpr i) = (\<lambda>(\<sigma>, sc). toWasm_ifExpr i (\<sigma>, sc))"
| "toWasm_blockExpr (BlockExpr iterStatement e) = (\<lambda>(\<sigma>, sc).
     bindE (mapE (\<lambda>s. toWasm_statement s (\<sigma>, sc)) iterStatement) (\<lambda>cs.
     bindE (toWasm_expr e (\<sigma>, sc)) (\<lambda>c. Inr (map L cs @ [L c]))))"
| "toWasm_statement (LetStatement ident e) = (\<lambda>(\<sigma>, sc).
     bindE (resolve \<sigma> sc ident) (\<lambda>info.
     bindE (toWasm_expr e (\<sigma>, sc)) (\<lambda>c.
     bindE (localidx_of info) (\<lambda>i. Inr [L c, B instr_local_set, L i]))))"
| "toWasm_statement (Statement_if i) = (\<lambda>(\<sigma>, sc). toWasm_ifStatement i (\<sigma>, sc))"
| "toWasm_statement (WhileStatement cond body) = (\<lambda>(\<sigma>, sc).
     bindE (toWasm_expr cond (\<sigma>, sc)) (\<lambda>c.
     bindE (mapE (\<lambda>s. toWasm_statement s (\<sigma>, sc)) body) (\<lambda>b.
       Inr [L [B instr_loop, B blocktype_empty], L c,
            L [B instr_if, B blocktype_empty], L (map L b), L [B instr_br, B 1],
            B instr_end, B instr_end])))"
| "toWasm_statement (ExprStatement e) = (\<lambda>(\<sigma>, sc).
     bindE (toWasm_expr e (\<sigma>, sc)) (\<lambda>c. Inr [L c, B instr_drop]))"
| "toWasm_ifStatement (IfStatement cond thenBlock iterElseBlock) = (\<lambda>(\<sigma>, sc).
     bindE (case iterElseBlock of
              None \<Rightarrow> Inr []
            | Some el \<Rightarrow> bindE (toWasm_elseStatement el (\<sigma>, sc)) (\<lambda>e. Inr [B instr_else, L e])) (\<lambda>elseFrag.
     bindE (toWasm_expr cond (\<sigma>, sc)) (\<lambda>c.
     bindE (mapE (\<lambda>s. toWasm_statement s (\<sigma>, sc)) thenBlock) (\<lambda>t.
       Inr [L c, L [B instr_if, B blocktype_empty], L (map L t), L elseFrag, B instr_end]))))"
| "toWasm_elseStatement (ElseBlockStatements ss) = (\<lambda>(\<sigma>, sc).
     bindE (mapE (\<lambda>s. toWasm_statement s (\<sigma>, sc)) ss) (\<lambda>cs. Inr (map L cs)))"
| "toWasm_elseStatement (ElseIfStatement i) = (\<lambda>(\<sigma>, sc). toWasm_ifStatement i (\<sigma>, sc))"

text \<open>
  The \<^verbatim>\<open>FunctionDecl\<close> action of \<^verbatim>\<open>toWasm\<close>:
  \<^verbatim>\<open>scopes.push(symbols.get(ident.sourceString)! as Scope);
  const result = [blockExpr.toWasm(), instr.end]; scopes.pop(); return result\<close>.
  The pop undoes the push, so after a call that returns \<^verbatim>\<open>scopes\<close> is what it was.
\<close>

fun toWasm_FunctionDecl ::
  "functionDecl \<Rightarrow> (nat \<Rightarrow> jsmap) \<times> entry option \<times> entry option list \<Rightarrow> error + bytes"
where
  "toWasm_FunctionDecl (FunctionDecl nm params blockExpr) (\<sigma>, symbols, sc) =
     bindE (scope_of \<sigma> symbols) (\<lambda>m.
     bindE (toWasm_blockExpr blockExpr (\<sigma>, sc @ [map_get m nm])) (\<lambda>b.
       Inr [L b, B instr_end]))"

section \<open>Function records and the module builder (chapter05.ts)\<close>

text \<open>
  \<^verbatim>\<open>type FunctionDecl = { name: string; paramTypes: number[]; resultType: number;
  locals: bytes; body: bytes }\<close>
\<close>

record FunctionDecl =
  fname :: string
  paramTypes :: "int list"
  resultType :: int
  flocals :: bytes
  body :: bytes

text \<open>
  The \<^verbatim>\<open>FunctionDecl\<close> action of the operation \<^verbatim>\<open>functionDecls\<close>.  An entry that is
  not a Symbol has no \<^verbatim>\<open>what\<close>, so neither filter keeps it.  The object literal
  evaluates \<^verbatim>\<open>locals(varsCount, valtype.i32)\<close> before \<^verbatim>\<open>this.toWasm()\<close>, which runs with
  \<^verbatim>\<open>scopes = [symbols]\<close>.
\<close>

definition is_what :: "what \<Rightarrow> entry \<Rightarrow> bool" where
  "is_what w info = (case info of Sym sy \<Rightarrow> what sy = w | Scope a \<Rightarrow> False)"

fun functionDecls_FunctionDecl ::
  "functionDecl \<Rightarrow> (nat \<Rightarrow> jsmap) \<times> entry option \<Rightarrow> error + FunctionDecl"
where
  "functionDecls_FunctionDecl (FunctionDecl nm params blockExpr) (\<sigma>, symbols) =
     bindE (scope_of \<sigma> symbols) (\<lambda>m.
     bindE (scope_of \<sigma> (map_get m nm)) (\<lambda>scope.
       (let localVars = values' scope;
            params' = filter (is_what Param) localVars;
            paramTypes' = map (\<lambda>_. valtype_i32) params';
            varsCount = length (filter (is_what Local) localVars)
        in bindE (locals (int varsCount) valtype_i32) (\<lambda>ls.
           bindE (toWasm_FunctionDecl (FunctionDecl nm params blockExpr)
                    (\<sigma>, symbols, [symbols])) (\<lambda>b.
             Inr \<lparr>fname = nm, paramTypes = paramTypes', resultType = valtype_i32,
                  flocals = [L ls], body = b\<rparr>)))))"

text \<open>\<^verbatim>\<open>_default\<close>: \<^verbatim>\<open>children.flatMap((c) => c.functionDecls())\<close>, one record per declaration.\<close>

definition functionDecls :: "Module \<Rightarrow> (nat \<Rightarrow> jsmap) \<times> entry option \<Rightarrow> error + FunctionDecl list" where
  "functionDecls m env = mapE (\<lambda>d. functionDecls_FunctionDecl d env) m"

text \<open>\<^verbatim>\<open>Uint8Array.from\<close> stores every number modulo 256.\<close>

definition toUint8 :: "int \<Rightarrow> 8 word" where
  "toUint8 v = word_of_int v"

definition buildModule :: "FunctionDecl list \<Rightarrow> error + 8 word list" where
  "buildModule functionDecls' =
     bindE (mapE (\<lambda>f. bindE (functype (map B (paramTypes f)) [B (resultType f)])
                         (\<lambda>t. Inr (L t))) functionDecls') (\<lambda>types.
     bindE (mapE (\<lambda>(i, f). bindE (typeidx (int i)) (\<lambda>t. Inr (L t)))
              (enumerate 0 functionDecls')) (\<lambda>funcs.
     bindE (mapE (\<lambda>f. bindE (func (flocals f) (body f)) (\<lambda>fn.
                         bindE (code fn) (\<lambda>c. Inr (L c)))) functionDecls') (\<lambda>codes.
     bindE (mapE (\<lambda>(i, f). bindE (exportdesc_func (int i)) (\<lambda>d.
                              bindE (export' (fname f) d) (\<lambda>e. Inr (L e))))
              (enumerate 0 functionDecls')) (\<lambda>exports.
     bindE (typesec types) (\<lambda>ts.
     bindE (funcsec funcs) (\<lambda>fs.
     bindE (exportsec exports) (\<lambda>es.
     bindE (codesec codes) (\<lambda>cs.
       Inr (map toUint8 (flatten (module [L ts, L fs, L es, L cs])))))))))))"

text \<open>
  \<^verbatim>\<open>compile\<close> of chapter06.ts, from the syntax tree on (a source text that does not
  match the grammar is refused by the parser before any of this runs).
\<close>

definition compile :: "Module \<Rightarrow> error + 8 word list" where
  "compile m =
     bindE (buildSymbolTable m) (\<lambda>symbols.
     bindE (functionDecls m symbols) (\<lambda>decls. buildModule decls))"

section \<open>Vocabulary of the statements\<close>

text \<open>The let statements the walk reaches, in the order it reaches them.\<close>

fun lets_expr :: "expr \<Rightarrow> string list"
  and lets_primary :: "primary \<Rightarrow> string list"
  and lets_ifExpr :: "ifExpr \<Rightarrow> string list"
  and lets_elseExpr :: "elseExpr \<Rightarrow> string list"
  and lets_blockExpr :: "blockExpr \<Rightarrow> string list"
  and lets_statement :: "statement \<Rightarrow> string list"
  and lets_ifStatement :: "ifStatement \<Rightarrow> string list"
  and lets_elseStatement :: "elseStatement \<Rightarrow> string list"
where
  "lets_expr (AssignmentExpr x e) = lets_expr e"
| "lets_expr (Expr_binary p rest) = lets_primary p @ concat (map (\<lambda>r. lets_primary (snd r)) rest)"
| "lets_primary (PrimaryExpr_num n) = []"
| "lets_primary (CallExpr f args) = concat (map lets_expr args)"
| "lets_primary (PrimaryExpr_var x) = []"
| "lets_primary (PrimaryExpr_if i) = lets_ifExpr i"
| "lets_ifExpr (IfExpr c t e) = lets_expr c @ lets_blockExpr t @ lets_elseExpr e"
| "lets_elseExpr (ElseBlockExpr b) = lets_blockExpr b"
| "lets_elseExpr (ElseIfExpr i) = lets_ifExpr i"
| "lets_blockExpr (BlockExpr ss e) = concat (map lets_statement ss) @ lets_expr e"
| "lets_statement (LetStatement x e) = [x]"
| "lets_statement (Statement_if i) = lets_ifStatement i"
| "lets_statement (WhileStatement c b) = lets_expr c @ concat (map lets_statement b)"
| "lets_statement (ExprStatement e) = lets_expr e"
| "lets_ifStatement (IfStatement c t e) =
     lets_expr c @ concat (map lets_statement t) @
     (case e of None \<Rightarrow> [] | Some e' \<Rightarrow> lets_elseStatement e')"
| "lets_elseStatement (ElseBlockStatements ss) = concat (map lets_statement ss)"
| "lets_elseStatement (ElseIfStatement i) = lets_ifStatement i"

definition decl :: "what \<Rightarrow> jsmap \<Rightarrow> string \<Rightarrow> jsmap" where
  "decl w m x = map_set x (Sym \<lparr>sym_name = x, idx = length m, what = w\<rparr>) m"

definition declare_all :: "what \<Rightarrow> string list \<Rightarrow> tables \<Rightarrow> tables" where
  "declare_all w xs s =
     s\<lparr>store := (store s)(last (scopes s) := foldl (decl w) (store s (last (scopes s))) xs)\<rparr>"

text \<open>The scope a function declaration builds: the parameters, then the lets reached.\<close>

definition fn_scope :: "functionDecl \<Rightarrow> jsmap" where
  "fn_scope d = (case d of FunctionDecl nm ps b \<Rightarrow>
     foldl (decl Local) (foldl (decl Param) [] ps) (lets_blockExpr b))"

definition decl_name :: "functionDecl \<Rightarrow> string" where
  "decl_name d = (case d of FunctionDecl nm ps b \<Rightarrow> nm)"

text \<open>The state after the walk over a list of declarations.\<close>

fun walk_module :: "functionDecl list \<Rightarrow> tables \<Rightarrow> tables" where
  "walk_module [] s = s"
| "walk_module (d # ds) s =
     walk_module ds
       (s\<lparr>store := (store s)
             (0 := map_set (decl_name d) (Scope (fresh s)) (store s 0),
              fresh s := fn_scope d),
           fresh := Suc (fresh s)\<rparr>)"

text \<open>
  The scope that code generation reads for a function name:
  \<^verbatim>\<open>symbols.get(name) as Scope\<close> on the result of \<^verbatim>\<open>buildSymbolTable\<close>.
\<close>

definition function_scope :: "Module \<Rightarrow> string \<Rightarrow> error + jsmap" where
  "function_scope m nm =
     bindE (buildSymbolTable m) (\<lambda>(\<sigma>, symbols).
     bindE (scope_of \<sigma> symbols) (\<lambda>ms. scope_of \<sigma> (map_get ms nm)))"

text \<open>
  The scope with the names \<open>ps @ ls\<close> in this order, the \<open>i\<close>-th with index \<open>i\<close>, the
  first \<open>length ps\<close> of kind "param" and the rest of kind "local".
\<close>

definition table :: "string list \<Rightarrow> string list \<Rightarrow> jsmap" where
  "table ps ls =
     map (\<lambda>i. ((ps @ ls) ! i,
               Sym \<lparr>sym_name = (ps @ ls) ! i, idx = i,
                    what = (if i < length ps then Param else Local)\<rparr>))
       [0..<length ps + length ls]"

text \<open>The indices held by the symbols of a scope, in insertion order.\<close>

definition indices :: "jsmap \<Rightarrow> nat list" where
  "indices m = concat (map (\<lambda>(k, e). case e of Sym sy \<Rightarrow> [idx sy] | Scope a \<Rightarrow> []) m)"

definition scope_inv :: "jsmap \<Rightarrow> bool" where
  "scope_inv m = list_all (\<lambda>(k, e). case e of Sym sy \<Rightarrow> idx sy \<le> length m | Scope a \<Rightarrow> False) m"

text \<open>
  The scope of a function when the walk has declared the parameters \<open>ps\<close> and then the
  let statements \<open>ls\<close>, in this order.
\<close>

definition scope_after :: "string list \<Rightarrow> string list \<Rightarrow> jsmap" where
  "scope_after ps ls = foldl (decl Local) (foldl (decl Param) [] ps) ls"

text \<open>
  A scope with fewer distinct indices than its highest index plus one: some number
  below the highest index is the index of no symbol.
\<close>

definition gapped :: "jsmap \<Rightarrow> bool" where
  "gapped m = (indices m \<noteq> [] \<and> card (set (indices m)) \<le> Max (set (indices m)))"

text \<open>
  The plain identifier references of a node, in textual order: variable reads,
  assignment targets and let targets (a callee name is not one).
\<close>

fun refs_expr :: "expr \<Rightarrow> string list"
  and refs_primary :: "primary \<Rightarrow> string list"
  and refs_ifExpr :: "ifExpr \<Rightarrow> string list"
  and refs_elseExpr :: "elseExpr \<Rightarrow> string list"
  and refs_blockExpr :: "blockExpr \<Rightarrow> string list"
  and refs_statement :: "statement \<Rightarrow> string list"
  and refs_ifStatement :: "ifStatement \<Rightarrow> string list"
  and refs_elseStatement :: "elseStatement \<Rightarrow> string list"
where
  "refs_expr (AssignmentExpr x e) = x # refs_expr e"
| "refs_expr (Expr_binary p rest) = refs_primary p @ concat (map (\<lambda>r. refs_primary (snd r)) rest)"
| "refs_primary (PrimaryExpr_num n) = []"
| "refs_primary (CallExpr f args) = concat (map refs_expr args)"
| "refs_primary (PrimaryExpr_var x) = [x]"
| "refs_primary (PrimaryExpr_if i) = refs_ifExpr i"
| "refs_ifExpr (IfExpr c t e) = refs_expr c @ refs_blockExpr t @ refs_elseExpr e"
| "refs_elseExpr (ElseBlockExpr b) = refs_blockExpr b"
| "refs_elseExpr (ElseIfExpr i) = refs_ifExpr i"
| "refs_blockExpr (BlockExpr ss e) = concat (map refs_statement ss) @ refs_expr e"
| "refs_statement (LetStatement x e) = x # refs_expr e"
| "refs_statement (Statement_if i) = refs_ifStatement i"
| "refs_statement (WhileStatement c b) = refs_expr c @ concat (map refs_statement b)"
| "refs_statement (ExprStatement e) = refs_expr e"
| "refs_ifStatement (IfStatement c t e) =
     refs_expr c @ concat (map refs_statement t) @
     (case e of None \<Rightarrow> [] | Some e' \<Rightarrow> refs_elseStatement e')"
| "refs_elseStatement (ElseBlockStatements ss) = concat (map refs_statement ss)"
| "refs_elseStatement (ElseIfStatement i) = refs_ifStatement i"

text \<open>Every name of the list resolves in the scope on top of the stack.\<close>

definition resolves :: "(nat \<Rightarrow> jsmap) \<times> entry option list \<Rightarrow> string list \<Rightarrow> bool" where
  "resolves env xs = (case env of (\<sigma>, sc) \<Rightarrow> list_all (\<lambda>x. \<exists>info. resolve \<sigma> sc x = Inr info) xs)"

text \<open>
  Nothing in the node makes an encoder or the operator table raise: every number
  literal is at most 63, the bound of \<open>i32\<close>, and every binary operator is in the
  table \<open>instructionByOp\<close>.
\<close>

fun encodable_expr :: "expr \<Rightarrow> bool"
  and encodable_primary :: "primary \<Rightarrow> bool"
  and encodable_ifExpr :: "ifExpr \<Rightarrow> bool"
  and encodable_elseExpr :: "elseExpr \<Rightarrow> bool"
  and encodable_blockExpr :: "blockExpr \<Rightarrow> bool"
  and encodable_statement :: "statement \<Rightarrow> bool"
  and encodable_ifStatement :: "ifStatement \<Rightarrow> bool"
  and encodable_elseStatement :: "elseStatement \<Rightarrow> bool"
where
  "encodable_expr (AssignmentExpr x e) = encodable_expr e"
| "encodable_expr (Expr_binary p rest) =
     (encodable_primary p \<and>
      (\<forall>r\<in>set rest. map_of instructionByOp (fst r) \<noteq> None \<and> encodable_primary (snd r)))"
| "encodable_primary (PrimaryExpr_num n) = (n \<le> 63)"
| "encodable_primary (CallExpr f args) = (\<forall>a\<in>set args. encodable_expr a)"
| "encodable_primary (PrimaryExpr_var x) = True"
| "encodable_primary (PrimaryExpr_if i) = encodable_ifExpr i"
| "encodable_ifExpr (IfExpr c t e) =
     (encodable_expr c \<and> encodable_blockExpr t \<and> encodable_elseExpr e)"
| "encodable_elseExpr (ElseBlockExpr b) = encodable_blockExpr b"
| "encodable_elseExpr (ElseIfExpr i) = encodable_ifExpr i"
| "encodable_blockExpr (BlockExpr ss e) =
     ((\<forall>s\<in>set ss. encodable_statement s) \<and> encodable_expr e)"
| "encodable_statement (LetStatement x e) = encodable_expr e"
| "encodable_statement (Statement_if i) = encodable_ifStatement i"
| "encodable_statement (WhileStatement c b) =
     (encodable_expr c \<and> (\<forall>s\<in>set b. encodable_statement s))"
| "encodable_statement (ExprStatement e) = encodable_expr e"
| "encodable_ifStatement (IfStatement c t e) =
     (encodable_expr c \<and> (\<forall>s\<in>set t. encodable_statement s) \<and>
      (case e of None \<Rightarrow> True | Some e' \<Rightarrow> encodable_elseStatement e'))"
| "encodable_elseStatement (ElseBlockStatements ss) = (\<forall>s\<in>set ss. encodable_statement s)"
| "encodable_elseStatement (ElseIfStatement i) = encodable_ifStatement i"

text \<open>
  The same for a module: at most 128 functions, so that every function index is at
  most 127, and in every function a body as above and a scope of at most 127 names,
  so that every local index and every count of locals is at most 127.
\<close>

definition encodable :: "Module \<Rightarrow> bool" where
  "encodable m =
     (length m \<le> 128 \<and>
      (\<forall>d\<in>set m. case d of FunctionDecl nm ps b \<Rightarrow>
         encodable_blockExpr b \<and> length (fn_scope d) \<le> 127))"

text \<open>
  The error is "undeclared identifier" for a name of the list that does not resolve
  in the scope on top of the stack.
\<close>

definition undeclared :: "(nat \<Rightarrow> jsmap) \<times> entry option list \<Rightarrow> string list \<Rightarrow> error \<Rightarrow> bool" where
  "undeclared env xs err =
     (case env of (\<sigma>, sc) \<Rightarrow>
        (\<exists>y\<in>set xs. err = UndeclaredIdentifier y \<and> resolve \<sigma> sc y = Inl (UndeclaredIdentifier y)))"

text \<open>
  An environment of code generation in which no index encoder raises: the scope on
  top of the stack holds symbols with index at most 127, and the module scope at the
  bottom has at most 128 names.
\<close>

definition ready :: "(nat \<Rightarrow> jsmap) \<times> entry option list \<Rightarrow> bool" where
  "ready env =
     (case env of (\<sigma>, sc) \<Rightarrow>
        (case scope_of \<sigma> (case at_last sc of None \<Rightarrow> None | Some v \<Rightarrow> v) of
           Inl err \<Rightarrow> False
         | Inr fs \<Rightarrow>
             list_all (\<lambda>(k, e). case e of Sym sy \<Rightarrow> idx sy \<le> 127 | Scope a \<Rightarrow> False) fs) \<and>
        (case scope_of \<sigma> (case sc of [] \<Rightarrow> None | v # vs \<Rightarrow> v) of
           Inl err \<Rightarrow> False
         | Inr ms \<Rightarrow> length ms \<le> 128))"







section \<open>Example programs\<close>

definition num :: "nat \<Rightarrow> expr" where
  "num n = Expr_binary (PrimaryExpr_num n) []"

definition var :: "string \<Rightarrow> expr" where
  "var x = Expr_binary (PrimaryExpr_var x) []"

text \<open>\<^verbatim>\<open>func countTo(n) { let x = 0; while x < n { x := x + 1; } x }\<close>\<close>

definition countTo_cond :: expr where
  "countTo_cond = Expr_binary (PrimaryExpr_var ''x'') [(''<'', PrimaryExpr_var ''n'')]"

definition countTo_body :: "statement list" where
  "countTo_body =
     [ExprStatement (AssignmentExpr ''x''
        (Expr_binary (PrimaryExpr_var ''x'') [(''+'', PrimaryExpr_num 1)]))]"

definition countTo :: functionDecl where
  "countTo = FunctionDecl ''countTo'' [''n'']
     (BlockExpr [LetStatement ''x'' (num 0), WhileStatement countTo_cond countTo_body]
        (var ''x''))"

text \<open>The store and the stack of scopes while the body of \<open>countTo\<close> is compiled.\<close>

definition countTo_env :: "(nat \<Rightarrow> jsmap) \<times> entry option list" where
  "countTo_env =
     ((\<lambda>a. [])(0 := [(''countTo'', Scope 1)],
                 1 := [(''n'', Sym \<lparr>sym_name = ''n'', idx = 0, what = Param\<rparr>),
                       (''x'', Sym \<lparr>sym_name = ''x'', idx = 1, what = Local\<rparr>)]),
      [Some (Scope 0), Some (Scope 1)])"

text \<open>\<^verbatim>\<open>n - x - x\<close> in the body of \<open>countTo\<close>\<close>

definition n_minus_x_minus_x :: expr where
  "n_minus_x_minus_x =
     Expr_binary (PrimaryExpr_var ''n'') [(''-'', PrimaryExpr_var ''x''), (''-'', PrimaryExpr_var ''x'')]"

text \<open>\<^verbatim>\<open>func doIt() { add(1, 2) } func add(x, y) { x + y }\<close>\<close>

definition doIt_add :: Module where
  "doIt_add =
     [FunctionDecl ''doIt'' []
        (BlockExpr [] (Expr_binary (CallExpr ''add'' [num 1, num 2]) [])),
      FunctionDecl ''add'' [''x'', ''y'']
        (BlockExpr [] (Expr_binary (PrimaryExpr_var ''x'') [(''+'', PrimaryExpr_var ''y'')]))]"

text \<open>\<^verbatim>\<open>func f() { g() } func f() { 1 } func g() { 2 }\<close>\<close>

definition f_f_g :: Module where
  "f_f_g =
     [FunctionDecl ''f'' [] (BlockExpr [] (Expr_binary (CallExpr ''g'' []) [])),
      FunctionDecl ''f'' [] (BlockExpr [] (num 1)),
      FunctionDecl ''g'' [] (BlockExpr [] (num 2))]"


text \<open>\<^verbatim>\<open>func f() { let x = if 1 { let y = 1; y } else { 0 }; x }\<close>\<close>

definition let_in_initialiser :: Module where
  "let_in_initialiser =
     [FunctionDecl ''f'' []
        (BlockExpr
           [LetStatement ''x''
              (Expr_binary
                 (PrimaryExpr_if
                    (IfExpr (num 1)
                       (BlockExpr [LetStatement ''y'' (num 1)] (var ''y''))
                       (ElseBlockExpr (BlockExpr [] (num 0)))))
                 [])]
           (var ''x''))]"

text \<open>\<^verbatim>\<open>func f() { if 1 { let y = 1; y } else { 0 }; 0 }\<close>\<close>

definition let_in_statement :: Module where
  "let_in_statement =
     [FunctionDecl ''f'' []
        (BlockExpr
           [ExprStatement
              (Expr_binary
                 (PrimaryExpr_if
                    (IfExpr (num 1)
                       (BlockExpr [LetStatement ''y'' (num 1)] (var ''y''))
                       (ElseBlockExpr (BlockExpr [] (num 0)))))
                 [])]
           (num 0))]"

text \<open>\<^verbatim>\<open>func f2(a, b) { let x = 12; b }\<close>\<close>

definition f2_body :: blockExpr where
  "f2_body = BlockExpr [LetStatement ''x'' (num 12)] (var ''b'')"

text \<open>\<^verbatim>\<open>func f() { let x = 1; let x = 2; x }\<close> and the same with a third \<^verbatim>\<open>let x = 3;\<close>\<close>

definition let_x_twice :: Module where
  "let_x_twice =
     [FunctionDecl ''f'' []
        (BlockExpr [LetStatement ''x'' (num 1), LetStatement ''x'' (num 2)] (var ''x''))]"

definition let_x_thrice :: Module where
  "let_x_thrice =
     [FunctionDecl ''f'' []
        (BlockExpr [LetStatement ''x'' (num 1), LetStatement ''x'' (num 2),
                    LetStatement ''x'' (num 3)] (var ''x''))]"

text \<open>\<^verbatim>\<open>func f(a) { let x = 1; let x = 2; let a = 3; x }\<close>\<close>

definition let_x_x_a_body :: blockExpr where
  "let_x_x_a_body =
     BlockExpr [LetStatement ''x'' (num 1), LetStatement ''x'' (num 2),
                LetStatement ''a'' (num 3)] (var ''x'')"

definition let_x_x_a :: Module where
  "let_x_x_a = [FunctionDecl ''f'' [''a''] let_x_x_a_body]"

text \<open>\<^verbatim>\<open>func f() { let x = 1; let x = 2; let y = 3; y }\<close>\<close>

definition let_x_x_y :: Module where
  "let_x_x_y =
     [FunctionDecl ''f'' []
        (BlockExpr [LetStatement ''x'' (num 1), LetStatement ''x'' (num 2),
                    LetStatement ''y'' (num 3)] (var ''y''))]"

text \<open>\<^verbatim>\<open>func f() { let x = 1; let y = if 1 { let x = 2; x } else { 0 }; y }\<close>\<close>

definition let_x_in_initialiser :: Module where
  "let_x_in_initialiser =
     [FunctionDecl ''f'' []
        (BlockExpr
           [LetStatement ''x'' (num 1),
            LetStatement ''y''
              (Expr_binary
                 (PrimaryExpr_if
                    (IfExpr (num 1)
                       (BlockExpr [LetStatement ''x'' (num 2)] (var ''x''))
                       (ElseBlockExpr (BlockExpr [] (num 0)))))
                 [])]
           (var ''y''))]"

text \<open>\<^verbatim>\<open>func f(a) { a } func g() { a }\<close>\<close>

definition reads_other_scope :: Module where
  "reads_other_scope =
     [FunctionDecl ''f'' [''a''] (BlockExpr [] (var ''a'')),
      FunctionDecl ''g'' [] (BlockExpr [] (var ''a''))]"

text \<open>\<^verbatim>\<open>func f() { 64 + y }\<close>\<close>

definition sixty_four_plus_y :: Module where
  "sixty_four_plus_y =
     [FunctionDecl ''f'' []
        (BlockExpr [] (Expr_binary (PrimaryExpr_num 64) [(''+'', PrimaryExpr_var ''y'')]))]"

text \<open>\<^verbatim>\<open>func f(a) { b } func f(b) { b }\<close>\<close>

definition same_name_other_scope :: Module where
  "same_name_other_scope =
     [FunctionDecl ''f'' [''a''] (BlockExpr [] (var ''b'')),
      FunctionDecl ''f'' [''b''] (BlockExpr [] (var ''b''))]"




section \<open>Properties of the assembler\<close>

lemma flatten_Nil [simp]: "flatten [] = []"
  by (simp add: flatten_def)

lemma flatten_Cons [simp]: "flatten (x # xs) = flat_item x @ flatten xs"
  by (simp add: flatten_def)

lemma flatten_append [simp]: "flatten (xs @ ys) = flatten xs @ flatten ys"
  by (simp add: flatten_def)

lemma flat_item_L [simp]: "flat_item (L xs) = flatten xs"
  by (simp add: flatten_def)

declare flat_item.simps(2) [simp del]

lemma flatten_map_B [simp]: "flatten (map B ns) = ns"
  by (induction ns) simp_all


subsection \<open>The one-byte integer encoders\<close>

lemma u32_simps [simp]:
  "v \<le> 127 \<Longrightarrow> u32 v = Inr [B v]"
  "127 < v \<Longrightarrow> u32 v = Inl NotImplemented"
  by (simp_all add: u32_def)

lemma i32_simps [simp]:
  "v \<le> 63 \<Longrightarrow> i32 v = Inr [B v]"
  "63 < v \<Longrightarrow> i32 v = Inl NotImplemented"
  by (simp_all add: i32_def)

text \<open>
  Claim C8, as the code has it: \<^verbatim>\<open>u32(v)\<close> returns \<open>[v]\<close> when \<open>v \<le> 127\<close> and throws for
  every other value, \<^verbatim>\<open>i32(v)\<close> returns \<open>[v]\<close> when \<open>v \<le> 63\<close> and throws for every other
  value.  So the values that are rejected are exactly those above the bound; no
  value below it is rejected, negative ones included.
\<close>

theorem encoders_reject_exactly_above_bound:
  "u32 v = (if v \<le> 127 then Inr [B v] else Inl NotImplemented) \<and>
   i32 v = (if v \<le> 63 then Inr [B v] else Inl NotImplemented) \<and>
   ((\<exists>e. u32 v = Inl e) \<longleftrightarrow> 127 < v) \<and>
   ((\<exists>e. i32 v = Inl e) \<longleftrightarrow> 63 < v)"
  by (auto simp: u32_def i32_def)

text \<open>
  The claim's last clause fails: a negative input to the unsigned encoder is not
  rejected but emitted (and \<open>-65\<close>, which no single signed byte encodes, passes
  \<^verbatim>\<open>i32\<close>).  In the \<^verbatim>\<open>Uint8Array\<close> the emitted \<open>-1\<close> is the byte 255.
\<close>

theorem u32_emits_negative_input:
  "u32 (-1) = Inr [B (-1)] \<and> i32 (-65) = Inr [B (-65)] \<and> toUint8 (-1) = 255"
  by (simp add: toUint8_def)

subsection \<open>Length prefixes\<close>

text \<open>
  Claim C3: a section whose flattened contents have at most 127 bytes carries their
  exact number as its length field; a vector of at most 127 elements carries the
  number of its elements as its count; and whenever \<^verbatim>\<open>code\<close> returns an entry, its size
  prefix is the number of bytes of the flattened function body.
\<close>

theorem length_prefixes_exact:
  "(length (flatten contents) \<le> 127 \<longrightarrow>
      section' i contents = Inr [B i, L [B (int (length (flatten contents)))], L contents]) \<and>
   (length elements \<le> 127 \<longrightarrow>
      vec elements = Inr (L [B (int (length elements))] # elements)) \<and>
   (\<forall>entry. code fn = Inr entry \<longrightarrow>
      entry = [L [B (int (length (flatten fn)))], L fn] \<and>
      flatten entry = int (length (flatten fn)) # flatten fn)"
  by (auto simp: section'_def vec_def code_def Let_def u32_def split: if_splits)

theorem length_prefixes_exact_witness:
  "section' 10 [L [B 1], L [B 4, B 65, B 42, B 11]] =
     Inr [B 10, L [B 5], L [L [B 1], L [B 4, B 65, B 42, B 11]]] \<and>
   vec [B 127, B 127] = Inr [L [B 2], B 127, B 127] \<and>
   code [L [L [B 0]], L [B 65, B 42, B 11]] =
     Inr [L [B 4], L [L [L [B 0]], L [B 65, B 42, B 11]]]"
  using length_prefixes_exact [of "[L [B 1], L [B 4, B 65, B 42, B 11]]" 10
      "[B 127, B 127]" "[L [L [B 0]], L [B 65, B 42, B 11]]"]
  by (simp add: code_def u32_def)

section \<open>Properties of the symbol table\<close>

lemma keys_map_set:
  "keys (map_set k v m) = (if k \<in> set (keys m) then keys m else keys m @ [k])"
  by (induction m) (force simp: keys_def)+

lemma length_map_set:
  "length (map_set k v m) = (if k \<in> set (keys m) then length m else Suc (length m))"
  by (induction m) (force simp: keys_def)+

lemma map_of_map_set: "map_of (map_set k v m) = (map_of m)(k \<mapsto> v)"
  by (induction m) (auto simp: fun_eq_iff)

lemma map_set_new: "k \<notin> set (keys m) \<Longrightarrow> map_set k v m = m @ [(k, v)]"
  by (induction m) (auto simp: keys_def)

lemma declare_all_Nil [simp]: "declare_all w [] s = s"
  by (simp add: declare_all_def)

lemma scopes_declare_all [simp]: "scopes (declare_all w xs s) = scopes s"
  by (simp add: declare_all_def)

lemma declare_all_append [simp]:
  "declare_all w ys (declare_all w xs s) = declare_all w (xs @ ys) s"
  by (simp add: declare_all_def)

lemma declare_symbol_eq:
  "scopes s \<noteq> [] \<Longrightarrow> declare_symbol w x s = Inr (declare_all w [x] s)"
  by (simp add: declare_symbol_def at_last_def declare_all_def decl_def Let_def)

lemma forEach_declare:
  assumes "\<And>x u. x \<in> set xs \<Longrightarrow> scopes u \<noteq> [] \<Longrightarrow> f x u = Inr (declare_all w (g x) u)"
    and "scopes s \<noteq> []"
  shows "forEach f xs s = Inr (declare_all w (concat (map g xs)) s)"
  using assms
proof (induction xs arbitrary: s)
  case Nil
  then show ?case by simp
next
  case (Cons x xs)
  then show ?case by simp
qed

lemma bst_walk:
  "(\<forall>s. scopes s \<noteq> [] \<longrightarrow> bst_expr e s = Inr (declare_all Local (lets_expr e) s))"
  "(\<forall>s. scopes s \<noteq> [] \<longrightarrow> bst_primary p s = Inr (declare_all Local (lets_primary p) s))"
  "(\<forall>s. scopes s \<noteq> [] \<longrightarrow> bst_ifExpr ie s = Inr (declare_all Local (lets_ifExpr ie) s))"
  "(\<forall>s. scopes s \<noteq> [] \<longrightarrow> bst_elseExpr ee s = Inr (declare_all Local (lets_elseExpr ee) s))"
  "(\<forall>s. scopes s \<noteq> [] \<longrightarrow> bst_blockExpr b s = Inr (declare_all Local (lets_blockExpr b) s))"
  "(\<forall>s. scopes s \<noteq> [] \<longrightarrow> bst_statement st s = Inr (declare_all Local (lets_statement st) s))"
  "(\<forall>s. scopes s \<noteq> [] \<longrightarrow> bst_ifStatement ist s = Inr (declare_all Local (lets_ifStatement ist) s))"
  "(\<forall>s. scopes s \<noteq> [] \<longrightarrow> bst_elseStatement es s = Inr (declare_all Local (lets_elseStatement es) s))"
proof (induction e and p and ie and ee and b and st and ist and es
    rule: lets_expr_lets_primary_lets_ifExpr_lets_elseExpr_lets_blockExpr_lets_statement_lets_ifStatement_lets_elseStatement.induct)
  case (2 p rest)
  then show ?case by (simp add: forEach_declare [where g = "\<lambda>r. lets_primary (snd r)"])
next
  case (4 f args)
  then show ?case by (simp add: forEach_declare [where g = lets_expr])
next
  case (10 ss e)
  then show ?case by (simp add: forEach_declare [where g = lets_statement])
next
  case (11 x e)
  then show ?case by (simp add: declare_symbol_eq)
next
  case (13 c b)
  then show ?case by (simp add: forEach_declare [where g = lets_statement])
next
  case (15 c t e)
  then show ?case by (cases e) (simp_all add: forEach_declare [where g = lets_statement])
next
  case (16 ss)
  then show ?case by (simp add: forEach_declare [where g = lets_statement])
qed simp_all


lemma bst_Params_eq:
  "scopes s \<noteq> [] \<Longrightarrow> bst_Params ps s = Inr (declare_all Param ps s)"
  unfolding bst_Params_def
  using forEach_declare [where f = "declare_symbol Param" and g = "\<lambda>x. [x]" and w = Param and xs = ps and s = s]
  by (simp add: declare_symbol_eq)

lemma bst_FunctionDecl_eq:
  assumes "at_last (scopes s) = Some cur" and "cur < fresh s"
  shows "bst_FunctionDecl d s =
     Inr (s\<lparr>store := (store s)
              (cur := map_set (decl_name d) (Scope (fresh s)) (store s cur),
               fresh s := fn_scope d),
            fresh := Suc (fresh s)\<rparr>)"
proof (cases d)
  case (FunctionDecl nm ps b)
  have ne: "scopes s \<noteq> []" and l: "last (scopes s) = cur"
    using assms(1) by (auto simp: at_last_def split: if_splits)
  show ?thesis
    using assms ne l
    by (simp add: FunctionDecl Let_def bst_Params_eq bst_walk fn_scope_def decl_name_def
        declare_all_def)
qed

lemma scopes_walk_module [simp]: "scopes (walk_module ds s) = scopes s"
  by (induction ds arbitrary: s) simp_all

lemma fresh_walk_module [simp]: "fresh (walk_module ds s) = fresh s + length ds"
  by (induction ds arbitrary: s) simp_all

lemma forEach_bst_FunctionDecl:
  "scopes s = [0] \<Longrightarrow> 0 < fresh s \<Longrightarrow>
   forEach bst_FunctionDecl ds s = Inr (walk_module ds s)"
proof (induction ds arbitrary: s)
  case Nil
  then show ?case by simp
next
  case (Cons d ds)
  have "bst_FunctionDecl d s =
     Inr (s\<lparr>store := (store s)
              (0 := map_set (decl_name d) (Scope (fresh s)) (store s 0),
               fresh s := fn_scope d),
            fresh := Suc (fresh s)\<rparr>)"
    using Cons.prems by (intro bst_FunctionDecl_eq) (simp_all add: at_last_def)
  then show ?case using Cons by simp
qed


lemma keys_walk_module_distinct:
  "0 < fresh s \<Longrightarrow> distinct (map decl_name ds) \<Longrightarrow>
   set (map decl_name ds) \<inter> set (keys (store s 0)) = {} \<Longrightarrow>
   keys (store (walk_module ds s) 0) = keys (store s 0) @ map decl_name ds"
  by (induction ds arbitrary: s) (auto simp: keys_map_set)

lemma store_walk_module_old:
  "0 < a \<Longrightarrow> a < fresh s \<Longrightarrow> store (walk_module ds s) a = store s a"
  by (induction ds arbitrary: s) simp_all

lemma store_walk_module_new:
  "0 < fresh s \<Longrightarrow> i < length ds \<Longrightarrow>
   store (walk_module ds s) (fresh s + i) = fn_scope (ds ! i)"
proof (induction ds arbitrary: s i)
  case Nil
  then show ?case by simp
next
  case (Cons d ds)
  show ?case
  proof (cases i)
    case 0
    then show ?thesis using Cons.prems by (simp add: store_walk_module_old)
  next
    case (Suc j)
    let ?s' = "s\<lparr>store := (store s)
             (0 := map_set (decl_name d) (Scope (fresh s)) (store s 0),
              fresh s := fn_scope d),
           fresh := Suc (fresh s)\<rparr>"
    have "store (walk_module ds ?s') (fresh ?s' + j) = fn_scope (ds ! j)"
      using Cons.prems Suc by (intro Cons.IH) simp_all
    then show ?thesis using Suc by simp
  qed
qed

lemma buildSymbolTable_eq:
  "buildSymbolTable m = Inr (store (walk_module m init_tables), Some (Scope 0))"
  by (simp add: buildSymbolTable_def forEach_bst_FunctionDecl init_tables_def)


lemma indexOf_distinct: "distinct xs \<Longrightarrow> i < length xs \<Longrightarrow> indexOf xs (xs ! i) = int i"
proof (induction xs arbitrary: i)
  case Nil
  then show ?case by simp
next
  case (Cons x xs)
  show ?case
  proof (cases i)
    case 0
    then show ?thesis by simp
  next
    case (Suc j)
    then have "xs ! j \<noteq> x" using Cons.prems by auto
    then show ?thesis using Suc Cons by (simp add: Let_def)
  qed
qed


subsection \<open>Index assignment\<close>

lemma decl_new:
  "x \<notin> set (keys m) \<Longrightarrow>
   decl w m x = m @ [(x, Sym \<lparr>sym_name = x, idx = length m, what = w\<rparr>)]"
  by (simp add: decl_def map_set_new)

lemma foldl_decl_new:
  "distinct xs \<Longrightarrow> set xs \<inter> set (keys m) = {} \<Longrightarrow>
   foldl (decl w) m xs =
     m @ map (\<lambda>i. (xs ! i, Sym \<lparr>sym_name = xs ! i, idx = length m + i, what = w\<rparr>))
           [0..<length xs]"
proof (induction xs rule: rev_induct)
  case Nil
  then show ?case by simp
next
  case (snoc x xs)
  let ?g = "\<lambda>ys i. (ys ! i, Sym \<lparr>sym_name = ys ! i, idx = length m + i, what = w\<rparr>)"
  have IH: "foldl (decl w) m xs = m @ map (?g xs) [0..<length xs]"
    using snoc by simp
  have len: "length (foldl (decl w) m xs) = length m + length xs"
    by (simp add: IH)
  have "map fst (map (?g xs) [0..<length xs]) = xs"
    by (simp add: comp_def map_nth)
  then have ks: "keys (foldl (decl w) m xs) = keys m @ xs"
    unfolding IH keys_def by simp
  have nin: "x \<notin> set (keys (foldl (decl w) m xs))"
    using snoc.prems by (auto simp: ks)
  have same: "map (?g (xs @ [x])) [0..<length xs] = map (?g xs) [0..<length xs]"
    by (intro map_cong refl) (simp add: nth_append)
  have "foldl (decl w) m (xs @ [x]) = decl w (foldl (decl w) m xs) x"
    by simp
  also have "\<dots> = foldl (decl w) m xs @
      [(x, Sym \<lparr>sym_name = x, idx = length m + length xs, what = w\<rparr>)]"
    using nin by (simp add: decl_new len)
  also have "\<dots> = m @ map (?g (xs @ [x])) [0..<length (xs @ [x])]"
    unfolding IH by (simp add: same)
  finally show ?case .
qed

lemma foldl_decl_tab:
  assumes "distinct (ps @ ls)"
  shows "foldl (decl Local) (foldl (decl Param) [] ps) ls = table ps ls"
proof -
  have p: "foldl (decl Param) [] ps =
      map (\<lambda>i. (ps ! i, Sym \<lparr>sym_name = ps ! i, idx = i, what = Param\<rparr>)) [0..<length ps]"
    using assms foldl_decl_new [of ps "[]" Param] by (simp add: keys_def)
  have k: "keys (foldl (decl Param) [] ps) = ps"
    unfolding p keys_def by (simp add: map_nth comp_def)
  have "foldl (decl Local) (foldl (decl Param) [] ps) ls =
      foldl (decl Param) [] ps @
      map (\<lambda>i. (ls ! i, Sym \<lparr>sym_name = ls ! i, idx = length ps + i, what = Local\<rparr>))
        [0..<length ls]"
    using assms foldl_decl_new [of ls "foldl (decl Param) [] ps" Local] k
    by (auto simp: p)
  also have "\<dots> = table ps ls"
    unfolding p table_def
    by (auto simp: nth_append upt_add_eq_append [of 0] map_add_upt [symmetric]
        intro!: nth_equalityI)
  finally show ?thesis .
qed

lemma fn_scope_table:
  assumes "distinct (ps @ lets_blockExpr b)"
  shows "fn_scope (FunctionDecl nm ps b) = table ps (lets_blockExpr b)"
  using foldl_decl_tab [OF assms] by (simp add: fn_scope_def)

lemma keys_table: "keys (table ps ls) = ps @ ls"
  unfolding keys_def table_def by (simp add: comp_def map_nth [of "ps @ ls", simplified])

lemma table_nth:
  "i < length ps + length ls \<Longrightarrow>
   table ps ls ! i =
     ((ps @ ls) ! i,
      Sym \<lparr>sym_name = (ps @ ls) ! i, idx = i,
           what = (if i < length ps then Param else Local)\<rparr>)"
  by (simp add: table_def)

lemma resolveSymbol_eq:
  "resolveSymbol x m =
     (case map_of m x of None \<Rightarrow> Inl (UndeclaredIdentifier x) | Some info \<Rightarrow> Inr info)"
proof -
  have "x \<in> set (map fst m) \<longleftrightarrow> map_of m x \<noteq> None"
    by (simp add: map_of_eq_None_iff)
  then show ?thesis
    by (cases "map_of m x") (simp_all add: resolveSymbol_def map_has_def map_get_def)
qed

lemma map_of_walk_module_other:
  "0 < fresh s \<Longrightarrow> nm \<notin> set (map decl_name ds) \<Longrightarrow>
   map_of (store (walk_module ds s) 0) nm = map_of (store s 0) nm"
  by (induction ds arbitrary: s) (simp_all add: map_of_map_set)

lemma map_of_walk_module:
  "0 < fresh s \<Longrightarrow> distinct (map decl_name ds) \<Longrightarrow> k < length ds \<Longrightarrow>
   map_of (store (walk_module ds s) 0) (decl_name (ds ! k)) = Some (Scope (fresh s + k))"
proof (induction ds arbitrary: s k)
  case Nil
  then show ?case by simp
next
  case (Cons d ds)
  let ?s' = "s\<lparr>store := (store s)
             (0 := map_set (decl_name d) (Scope (fresh s)) (store s 0),
              fresh s := fn_scope d),
           fresh := Suc (fresh s)\<rparr>"
  show ?case
  proof (cases k)
    case 0
    have "map_of (store (walk_module ds ?s') 0) (decl_name d) = map_of (store ?s' 0) (decl_name d)"
      using Cons.prems by (intro map_of_walk_module_other) simp_all
    then show ?thesis using 0 Cons.prems by (simp add: map_of_map_set)
  next
    case (Suc j)
    have "map_of (store (walk_module ds ?s') 0) (decl_name (ds ! j)) = Some (Scope (fresh ?s' + j))"
      using Cons.prems Suc by (intro Cons.IH) simp_all
    then show ?thesis using Suc by simp
  qed
qed

lemma function_scope_eq:
  assumes "distinct (map decl_name m)" and "k < length m"
  shows "function_scope m (decl_name (m ! k)) = Inr (fn_scope (m ! k))"
proof -
  have "map_of (store (walk_module m init_tables) 0) (decl_name (m ! k)) = Some (Scope (1 + k))"
    using map_of_walk_module [of init_tables m k] assms by (simp add: init_tables_def)
  moreover have "store (walk_module m init_tables) (1 + k) = fn_scope (m ! k)"
    using store_walk_module_new [of init_tables k m] assms(2) by (simp add: init_tables_def)
  ultimately show ?thesis
    by (simp add: function_scope_def buildSymbolTable_eq scope_of_def map_get_def)
qed

text \<open>
  Index assignment where the walk reaches every let statement.  In a module whose
  function names are pairwise distinct, take a function with parameters \<open>ps\<close> whose
  body has the let statements \<open>lets_blockExpr b\<close> outside let initialisers, all these
  names pairwise distinct.  The scope that code generation reads for the function
  lists the parameters and then these lets in textual order, and resolving the \<open>i\<close>-th
  of them yields index \<open>i\<close>, of kind "param" exactly for the parameters: the indices
  are \<open>0, ..., p + l - 1\<close>, parameters before locals.
\<close>

theorem index_assignment:
  assumes "distinct (map decl_name m)" and "k < length m"
    and "m ! k = FunctionDecl nm ps b"
    and "distinct (ps @ lets_blockExpr b)"
    and "i < length ps + length (lets_blockExpr b)"
  shows "function_scope m nm = Inr (table ps (lets_blockExpr b)) \<and>
     keys (table ps (lets_blockExpr b)) = ps @ lets_blockExpr b \<and>
     resolveSymbol ((ps @ lets_blockExpr b) ! i) (table ps (lets_blockExpr b)) =
       Inr (Sym \<lparr>sym_name = (ps @ lets_blockExpr b) ! i, idx = i,
                 what = (if i < length ps then Param else Local)\<rparr>)"
proof -
  let ?t = "table ps (lets_blockExpr b)"
  have len: "length ?t = length ps + length (lets_blockExpr b)"
    by (simp add: table_def)
  have "?t ! i \<in> set ?t"
    using assms(5) len by (intro nth_mem) simp
  moreover have "distinct (map fst ?t)"
    using assms(4) keys_table [of ps "lets_blockExpr b"] by (simp add: keys_def)
  ultimately have "map_of ?t (fst (?t ! i)) = Some (snd (?t ! i))"
    by (intro map_of_is_SomeI) simp_all
  then have r: "resolveSymbol ((ps @ lets_blockExpr b) ! i) ?t =
       Inr (Sym \<lparr>sym_name = (ps @ lets_blockExpr b) ! i, idx = i,
                 what = (if i < length ps then Param else Local)\<rparr>)"
    using assms(5) by (simp add: resolveSymbol_eq table_nth)
  have "function_scope m nm = Inr (fn_scope (FunctionDecl nm ps b))"
    using function_scope_eq [OF assms(1,2)] by (simp add: assms(3) decl_name_def)
  then show ?thesis
    using r assms(4) by (simp add: fn_scope_table keys_table)
qed

theorem index_assignment_witness:
  "distinct (map decl_name [countTo, FunctionDecl ''f2'' [''a'', ''b''] f2_body]) \<and>
   [countTo, FunctionDecl ''f2'' [''a'', ''b''] f2_body] ! 1 =
     FunctionDecl ''f2'' [''a'', ''b''] f2_body \<and>
   distinct ([''a'', ''b''] @ lets_blockExpr f2_body) \<and>
   2 < length [''a'', ''b''] + length (lets_blockExpr f2_body) \<and>
   function_scope [countTo, FunctionDecl ''f2'' [''a'', ''b''] f2_body] ''f2'' =
     Inr (table [''a'', ''b''] [''x'']) \<and>
   resolveSymbol ''x'' (table [''a'', ''b''] [''x'']) =
     Inr (Sym \<lparr>sym_name = ''x'', idx = 2, what = Local\<rparr>)"
proof -
  let ?m = "[countTo, FunctionDecl ''f2'' [''a'', ''b''] f2_body]"
  have l: "lets_blockExpr f2_body = [''x'']"
    by (simp add: f2_body_def var_def)
  have n: "distinct (map decl_name ?m)" and k: "1 < length ?m"
    and e: "?m ! 1 = FunctionDecl ''f2'' [''a'', ''b''] f2_body"
    by (simp_all add: decl_name_def countTo_def)
  have d: "distinct ([''a'', ''b''] @ lets_blockExpr f2_body)"
    and i: "2 < length [''a'', ''b''] + length (lets_blockExpr f2_body)"
    by (simp_all add: l)
  show ?thesis
    using index_assignment [OF n k e d i] n e d i by (simp add: l)
qed


text \<open>
  Claim C1 fails on the code where a let statement stands inside the initialiser of
  another: the \<^verbatim>\<open>LetStatement\<close> action does not walk its initialiser, so in
  \<^verbatim>\<open>func f() { let x = if 1 { let y = 1; y } else { 0 }; x }\<close> (two let statements,
  distinct names) the scope of \<open>f\<close> holds \<open>x\<close> alone and compiling the declared \<open>y\<close>
  raises "undeclared identifier".  The same block as an expression statement is
  walked, and \<open>y\<close> is declared.
\<close>

theorem let_in_initialiser_not_declared:
  "function_scope let_in_initialiser ''f'' =
     Inr [(''x'', Sym \<lparr>sym_name = ''x'', idx = 0, what = Local\<rparr>)] \<and>
   compile let_in_initialiser = Inl (UndeclaredIdentifier ''y'') \<and>
   function_scope let_in_statement ''f'' =
     Inr [(''y'', Sym \<lparr>sym_name = ''y'', idx = 0, what = Local\<rparr>)]"
  by code_simp


subsection \<open>Redeclaration\<close>

lemma set_map_set: "set (map_set k v m) \<subseteq> insert (k, v) (set m)"
  by (induction m) (auto split: if_splits)

lemma map_set_mem: "(k, v) \<in> set (map_set k v m)"
  by (induction m) auto

lemma scope_inv_decl: "scope_inv m \<Longrightarrow> scope_inv (decl w m x)"
proof -
  assume a: "scope_inv m"
  have l: "length m \<le> length (decl w m x)"
    by (simp add: decl_def length_map_set)
  show ?thesis
    unfolding scope_inv_def list_all_iff
  proof
    fix p assume "p \<in> set (decl w m x)"
    then have "p = (x, Sym \<lparr>sym_name = x, idx = length m, what = w\<rparr>) \<or> p \<in> set m"
      using set_map_set [of x _ m] by (auto simp: decl_def)
    then show "case p of (k, e) \<Rightarrow>
        (case e of Sym sy \<Rightarrow> idx sy \<le> length (decl w m x) | Scope a \<Rightarrow> False)"
      using a l by (auto simp: scope_inv_def list_all_iff split: entry.splits)
  qed
qed

lemma scope_inv_foldl: "scope_inv m \<Longrightarrow> scope_inv (foldl (decl w) m xs)"
  by (induction xs arbitrary: m) (simp_all add: scope_inv_decl)

lemma scope_inv_reach: "scope_inv (foldl (decl Local) (foldl (decl Param) [] ps) pre)"
  by (intro scope_inv_foldl) (simp add: scope_inv_def)

lemma indices_le: "scope_inv m \<Longrightarrow> i \<in> set (indices m) \<Longrightarrow> i \<le> length m"
  by (auto simp: scope_inv_def indices_def list_all_iff split: entry.splits)

lemma length_indices: "length (indices m) \<le> length m"
proof -
  have "length (indices m) \<le> length m + n - n" for n
    unfolding indices_def
    by (induction m) (auto split: entry.splits)
  then show ?thesis by simp
qed

lemma indices_mem: "(k, Sym sy) \<in> set m \<Longrightarrow> idx sy \<in> set (indices m)"
  by (force simp: indices_def)

lemma fn_scope_after: "fn_scope (FunctionDecl nm ps b) = scope_after ps (lets_blockExpr b)"
  by (simp add: fn_scope_def scope_after_def)

lemma scope_after_snoc: "scope_after ps (ls @ [x]) = decl Local (scope_after ps ls) x"
  by (simp add: scope_after_def)

lemma scope_after_append:
  "scope_after ps (ls @ ls') = foldl (decl Local) (scope_after ps ls) ls'"
  by (simp add: scope_after_def)

lemma scope_inv_after: "scope_inv (scope_after ps ls)"
  unfolding scope_after_def by (rule scope_inv_reach)

lemma set_keys_foldl_decl: "set (keys (foldl (decl w) m xs)) = set (keys m) \<union> set xs"
  by (induction xs arbitrary: m) (auto simp: decl_def keys_map_set)

lemma distinct_keys_foldl_decl:
  "distinct (keys m) \<Longrightarrow> distinct (keys (foldl (decl w) m xs))"
  by (induction xs arbitrary: m) (auto simp: decl_def keys_map_set)

lemma keys_Nil: "keys [] = []"
  by (simp add: keys_def)

lemma length_keys: "length (keys m) = length m"
  by (simp add: keys_def)

lemma set_keys_after: "set (keys (scope_after ps ls)) = set (ps @ ls)"
  by (simp add: scope_after_def set_keys_foldl_decl keys_Nil)

lemma distinct_keys_after: "distinct (keys (scope_after ps ls))"
  unfolding scope_after_def by (intro distinct_keys_foldl_decl) (simp add: keys_Nil)

lemma length_scope_after: "length (scope_after ps ls) = card (set (ps @ ls))"
proof -
  have "length (scope_after ps ls) = length (keys (scope_after ps ls))"
    by (simp add: length_keys)
  also have "\<dots> = card (set (keys (scope_after ps ls)))"
    using distinct_card [OF distinct_keys_after [of ps ls]] by simp
  finally show ?thesis by (simp only: set_keys_after)
qed

lemma map_of_foldl_decl_other:
  "x \<notin> set xs \<Longrightarrow> map_of (foldl (decl w) m xs) x = map_of m x"
  by (induction xs arbitrary: m) (auto simp: decl_def map_of_map_set)

lemma map_of_foldl_decl_last:
  assumes "x \<notin> set v"
  shows "map_of (foldl (decl w) m (u @ x # v)) x =
     Some (Sym \<lparr>sym_name = x, idx = length (foldl (decl w) m u), what = w\<rparr>)"
  using assms by (simp add: map_of_foldl_decl_other) (simp add: decl_def map_of_map_set)

lemma idx_last_declaration:
  assumes "ps @ pre = u @ x # v" and "x \<notin> set v"
  shows "\<exists>w. map_get (scope_after ps pre) x =
     Some (Sym \<lparr>sym_name = x, idx = card (set u), what = w\<rparr>)"
proof -
  from assms(1) consider
      (inps) v' where "ps = u @ x # v'" "v = v' @ pre"
    | (inpre) u' where "u = ps @ u'" "pre = u' @ x # v"
    by (auto simp: append_eq_append_conv2 append_eq_Cons_conv Cons_eq_append_conv)
  then show ?thesis
  proof cases
    case inps
    have nv: "x \<notin> set v'" and np: "x \<notin> set pre"
      using assms(2) inps(2) by auto
    have "map_of (scope_after ps pre) x = map_of (foldl (decl Param) [] (u @ x # v')) x"
      unfolding scope_after_def inps(1) using np by (rule map_of_foldl_decl_other)
    also have "\<dots> =
        Some (Sym \<lparr>sym_name = x, idx = length (foldl (decl Param) [] u), what = Param\<rparr>)"
      using nv by (rule map_of_foldl_decl_last)
    also have "length (foldl (decl Param) [] u) = card (set u)"
      using length_scope_after [of u "[]"] by (simp add: scope_after_def)
    finally show ?thesis
      by (auto simp: map_get_def)
  next
    case inpre
    have "map_of (scope_after ps pre) x =
        Some (Sym \<lparr>sym_name = x, idx = length (scope_after ps u'), what = Local\<rparr>)"
      unfolding scope_after_def inpre(2) using assms(2) by (rule map_of_foldl_decl_last)
    then show ?thesis
      by (auto simp: map_get_def length_scope_after inpre(1))
  qed
qed

lemma indices_decl_new:
  "y \<notin> set (keys m) \<Longrightarrow> indices (decl w m y) = indices m @ [length m]"
  by (simp add: decl_new indices_def)

lemma length_decl_old: "y \<in> set (keys m) \<Longrightarrow> length (decl w m y) = length m"
  by (simp add: decl_def length_map_set)

lemma top_index_decl: "length m \<in> set (indices (decl w m y))"
  using indices_mem [of y "\<lparr>sym_name = y, idx = length m, what = w\<rparr>" "decl w m y"]
    map_set_mem [of y "Sym \<lparr>sym_name = y, idx = length m, what = w\<rparr>" m]
  by (simp add: decl_def)

lemma Max_indices_redecl:
  assumes "scope_inv m" and "y \<in> set (keys m)"
  shows "Max (set (indices (decl w m y))) = length m"
proof -
  have "i \<le> length m" if "i \<in> set (indices (decl w m y))" for i
    using indices_le [OF scope_inv_decl [OF assms(1)] that] length_decl_old [OF assms(2)]
    by simp
  then show ?thesis
    using top_index_decl [of m w y] by (intro Max_eqI) simp_all
qed

lemma gapped_redecl:
  assumes "scope_inv m" and "y \<in> set (keys m)"
  shows "gapped (decl w m y)"
proof -
  have "card (set (indices (decl w m y))) \<le> length (indices (decl w m y))"
    by (rule card_length)
  also have "\<dots> \<le> length m"
    using length_indices [of "decl w m y"] length_decl_old [OF assms(2), of w] by simp
  finally have "card (set (indices (decl w m y))) \<le> Max (set (indices (decl w m y)))"
    by (simp add: Max_indices_redecl [OF assms])
  moreover have "indices (decl w m y) \<noteq> []"
    using top_index_decl [of m w y] by auto
  ultimately show ?thesis by (simp add: gapped_def)
qed

lemma gapped_new:
  assumes inv: "scope_inv m" and new: "y \<notin> set (keys m)" and g: "gapped m"
  shows "gapped (decl w m y)"
proof -
  let ?I = "set (indices m)"
  have ne: "?I \<noteq> {}" and c: "card ?I \<le> Max ?I"
    using g by (simp_all add: gapped_def)
  have le: "i \<le> length m" if "i \<in> ?I" for i
    using indices_le [OF inv that] .
  have s: "set (indices (decl w m y)) = insert (length m) ?I"
    by (simp add: indices_decl_new [OF new])
  show ?thesis
  proof (cases "length m \<in> ?I")
    case True
    then have "set (indices (decl w m y)) = ?I"
      using s by auto
    then show ?thesis
      using g by (simp add: gapped_def indices_decl_new [OF new])
  next
    case False
    have "Max ?I \<in> ?I"
      using ne by (intro Max_in) simp_all
    then have lt: "Max ?I < length m"
      using le [of "Max ?I"] False by (cases "Max ?I = length m") auto
    have "max (length m) (Max ?I) = length m"
      using lt by simp
    then have "Max (insert (length m) ?I) = length m"
      using ne Max_insert [of ?I "length m"] by simp
    moreover have "card (insert (length m) ?I) = Suc (card ?I)"
      using False by simp
    ultimately show ?thesis
      using c lt by (simp add: gapped_def s indices_decl_new [OF new])
  qed
qed

lemma gapped_decl: "scope_inv m \<Longrightarrow> gapped m \<Longrightarrow> gapped (decl w m y)"
  by (cases "y \<in> set (keys m)") (simp_all add: gapped_redecl gapped_new)

lemma gapped_foldl: "scope_inv m \<Longrightarrow> gapped m \<Longrightarrow> gapped (foldl (decl w) m xs)"
  by (induction xs arbitrary: m) (simp_all add: gapped_decl scope_inv_decl)

lemma gapped_not_contiguous:
  assumes "gapped m"
  shows "set (indices m) \<noteq> {0..<k}"
proof
  assume eq: "set (indices m) = {0..<k}"
  have ne: "set (indices m) \<noteq> {}" and c: "card (set (indices m)) \<le> Max (set (indices m))"
    using assms by (simp_all add: gapped_def)
  have "Max (set (indices m)) \<in> set (indices m)"
    using ne by (intro Max_in) simp_all
  then have "Max (set (indices m)) < k"
    using eq by simp
  moreover have "card (set (indices m)) = k"
    using eq by simp
  ultimately show False using c by simp
qed

lemma locals_count_redecl:
  assumes "scope_inv m" and "y \<in> set (keys m)"
  shows "length (filter (is_what Local) (values' (decl w m y))) <
     Suc (Max (set (indices (decl w m y))))"
proof -
  have "length (filter (is_what Local) (values' (decl w m y))) \<le> length (values' (decl w m y))"
    by (rule length_filter_le)
  also have "\<dots> = length m"
    using length_decl_old [OF assms(2), of w] by (simp add: values'_def)
  finally show ?thesis
    by (simp add: Max_indices_redecl [OF assms])
qed

lemma keys_fn_scope:
  "set (keys (fn_scope (FunctionDecl nm ps b))) = set (ps @ lets_blockExpr b)"
  by (simp add: fn_scope_def set_keys_foldl_decl keys_Nil)

lemma scope_inv_fn_scope: "scope_inv (fn_scope d)"
  by (cases d) (simp add: fn_scope_def scope_inv_reach)

text \<open>
  Claim C10, as the code has it.  In a module whose function names are pairwise
  distinct, take a function with parameters \<open>ps\<close> whose body has the let statements
  \<open>pre @ x # post\<close> outside let initialisers (the lets the walk reaches, in its
  order), where \<open>x\<close> is already a parameter or one of \<open>pre\<close>.  The walk of the body
  declares the lets \<open>pre\<close>, runs the action of this \<^verbatim>\<open>let x\<close> and declares the lets
  \<open>post\<close>, so the scope when the walk reaches this let is \<open>scope_after ps pre\<close>; its
  size is the number of distinct names declared so far, \<open>x\<close> among them.  Whatever
  its initialiser holds, the let keeps the keys and their order and replaces the
  entry of \<open>x\<close> by a "local" symbol whose index is that size.  The index replaced is
  not above the new one, and it is equal exactly when the declaration that made the
  replaced symbol was itself a redeclaration of \<open>x\<close> and no new name was declared
  after it.  From this let on, whatever lets \<open>q\<close> the walk reaches after it, the
  indices of the scope are not \<open>0..<k\<close> for any \<open>k\<close>; with \<open>q = post\<close> this is the final
  scope, the one that code generation reads.  The number of "local" entries is
  smaller than the highest index plus one as long as no let of a new name follows:
  right after this let, and in the final scope when \<open>post\<close> has no new name.
\<close>

theorem let_redeclaration:
  assumes names: "distinct (map decl_name m)"
    and d: "FunctionDecl nm ps b \<in> set m"
    and ls: "lets_blockExpr b = pre @ x # post"
    and redecl: "x \<in> set (ps @ pre)"
  shows "function_scope m nm = Inr (scope_after ps (pre @ x # post)) \<and>
     (\<forall>s e. scopes s \<noteq> [] \<longrightarrow>
        bst_blockExpr b s =
          bindE (bst_statement (LetStatement x e) (declare_all Local pre s))
            (\<lambda>s'. Inr (declare_all Local post s'))) \<and>
     (\<forall>s cur e. at_last (scopes s) = Some cur \<and> store s cur = scope_after ps pre \<longrightarrow>
        (\<exists>s'. bst_statement (LetStatement x e) s = Inr s' \<and>
              store s' cur = scope_after ps (pre @ [x]))) \<and>
     length (scope_after ps pre) = card (set (ps @ pre)) \<and>
     keys (scope_after ps (pre @ [x])) = keys (scope_after ps pre) \<and>
     map_get (scope_after ps (pre @ [x])) x =
       Some (Sym \<lparr>sym_name = x, idx = length (scope_after ps pre), what = Local\<rparr>) \<and>
     (\<exists>old. map_get (scope_after ps pre) x = Some (Sym old) \<and>
        idx old \<le> length (scope_after ps pre) \<and>
        (idx old = length (scope_after ps pre) \<longleftrightarrow>
           (\<exists>u v. ps @ pre = u @ x # v \<and> x \<in> set u \<and> x \<notin> set v \<and> set v \<subseteq> set u))) \<and>
     (\<forall>q k. set (indices (scope_after ps (pre @ x # q))) \<noteq> {0..<k}) \<and>
     (\<forall>q. set q \<subseteq> set (ps @ pre) \<longrightarrow>
        length (filter (is_what Local) (values' (scope_after ps (pre @ x # q)))) <
          Suc (Max (set (indices (scope_after ps (pre @ x # q))))))"
proof -
  let ?m0 = "scope_after ps pre"
  let ?m1 = "scope_after ps (pre @ [x])"
  let ?fs = "scope_after ps (pre @ x # post)"
  have m1: "?m1 = decl Local ?m0 x"
    by (rule scope_after_snoc)
  have fs: "foldl (decl Local) ?m1 q = scope_after ps (pre @ x # q)" for q
    using scope_after_append [of ps "pre @ [x]" q] by simp
  have inv: "scope_inv ?m0"
    by (rule scope_inv_after)
  have key: "x \<in> set (keys ?m0)"
    using redecl by (simp only: set_keys_after)
  obtain k where k: "k < length m" and mk: "m ! k = FunctionDecl nm ps b"
    using d by (auto simp: in_set_conv_nth)
  have c1: "function_scope m nm = Inr ?fs"
    using function_scope_eq [OF names k] by (simp add: mk decl_name_def fn_scope_after ls)
  have c2: "\<exists>s'. bst_statement (LetStatement x e) s = Inr s' \<and> store s' cur = ?m1"
    if "at_last (scopes s) = Some cur \<and> store s cur = ?m0" for s cur e
  proof -
    have ne: "scopes s \<noteq> []" and l: "last (scopes s) = cur"
      using that by (auto simp: at_last_def split: if_splits)
    have "bst_statement (LetStatement x e) s = Inr (declare_all Local [x] s)"
      using ne by (simp add: declare_symbol_eq)
    moreover have "store (declare_all Local [x] s) cur = ?m1"
      using l that by (simp add: declare_all_def m1)
    ultimately show ?thesis by blast
  qed
  have c2': "bst_blockExpr b s =
      bindE (bst_statement (LetStatement x e) (declare_all Local pre s))
        (\<lambda>s'. Inr (declare_all Local post s'))" if "scopes s \<noteq> []" for s e
  proof -
    have "bst_blockExpr b s = Inr (declare_all Local (pre @ x # post) s)"
      using bst_walk(5) [of b] that by (simp add: ls)
    moreover have "bst_statement (LetStatement x e) (declare_all Local pre s) =
        Inr (declare_all Local [x] (declare_all Local pre s))"
      using that by (simp add: declare_symbol_eq)
    ultimately show ?thesis by simp
  qed
  have c3: "length ?m0 = card (set (ps @ pre))"
    by (rule length_scope_after)
  have c4: "keys ?m1 = keys ?m0"
    using key by (simp add: m1 decl_def keys_map_set)
  have c5: "map_get ?m1 x = Some (Sym \<lparr>sym_name = x, idx = length ?m0, what = Local\<rparr>)"
    by (simp add: m1 decl_def map_get_def map_of_map_set)
  obtain u v where uv: "ps @ pre = u @ x # v" and nv: "x \<notin> set v"
    using split_list_last [OF redecl] by blast
  obtain w where old: "map_get ?m0 x = Some (Sym \<lparr>sym_name = x, idx = card (set u), what = w\<rparr>)"
    using idx_last_declaration [OF uv nv] by blast
  have sub: "set u \<subseteq> set (ps @ pre)"
    unfolding uv by auto
  have le: "card (set u) \<le> card (set (ps @ pre))"
    using sub by (intro card_mono) simp_all
  have iff: "card (set u) = card (set (ps @ pre)) \<longleftrightarrow>
      (\<exists>u' v'. ps @ pre = u' @ x # v' \<and> x \<in> set u' \<and> x \<notin> set v' \<and> set v' \<subseteq> set u')"
  proof
    assume "card (set u) = card (set (ps @ pre))"
    then have "set u = set (ps @ pre)"
      using sub by (intro card_subset_eq) simp_all
    then have "x \<in> set u" and "set v \<subseteq> set u"
      unfolding uv by auto
    then show "\<exists>u' v'. ps @ pre = u' @ x # v' \<and> x \<in> set u' \<and> x \<notin> set v' \<and> set v' \<subseteq> set u'"
      using uv nv by blast
  next
    assume "\<exists>u' v'. ps @ pre = u' @ x # v' \<and> x \<in> set u' \<and> x \<notin> set v' \<and> set v' \<subseteq> set u'"
    then obtain u' v' where e: "ps @ pre = u' @ x # v'" and xu: "x \<in> set u'"
      and nv': "x \<notin> set v'" and vs: "set v' \<subseteq> set u'"
      by blast
    obtain w' where "map_get ?m0 x = Some (Sym \<lparr>sym_name = x, idx = card (set u'), what = w'\<rparr>)"
      using idx_last_declaration [OF e nv'] by blast
    then have "card (set u') = card (set u)"
      using old by simp
    moreover have "set (ps @ pre) = set u'"
      unfolding e using xu vs by auto
    ultimately show "card (set u) = card (set (ps @ pre))"
      by simp
  qed
  have c6: "\<exists>old. map_get ?m0 x = Some (Sym old) \<and> idx old \<le> length ?m0 \<and>
        (idx old = length ?m0 \<longleftrightarrow>
           (\<exists>u v. ps @ pre = u @ x # v \<and> x \<in> set u \<and> x \<notin> set v \<and> set v \<subseteq> set u))"
    using old le iff unfolding c3
    by (intro exI [of _ "\<lparr>sym_name = x, idx = card (set u), what = w\<rparr>"]) simp
  have g1: "gapped ?m1"
    unfolding m1 using inv key by (rule gapped_redecl)
  have g: "gapped (scope_after ps (pre @ x # q))" for q
    using gapped_foldl [OF scope_inv_after g1, of Local q] by (simp only: fs)
  have c8: "set (indices (scope_after ps (pre @ x # q))) \<noteq> {0..<k}" for q k
    using g by (rule gapped_not_contiguous)
  have c9: "length (filter (is_what Local) (values' ?m1)) < Suc (Max (set (indices ?m1)))"
    unfolding m1 using inv key by (rule locals_count_redecl)
  have c10: "length (filter (is_what Local) (values' (scope_after ps (pre @ x # q)))) <
      Suc (Max (set (indices (scope_after ps (pre @ x # q)))))"
    if p: "set q \<subseteq> set (ps @ pre)" for q
  proof (cases q rule: rev_cases)
    case Nil
    then show ?thesis using c9 by simp
  next
    case (snoc bp z)
    have e: "scope_after ps (pre @ x # q) = decl Local (scope_after ps (pre @ x # bp)) z"
      using scope_after_snoc [of ps "pre @ x # bp" z] by (simp add: snoc)
    have "z \<in> set (ps @ pre)"
      using p snoc by auto
    then have "z \<in> set (ps @ (pre @ x # bp))"
      by auto
    then have "z \<in> set (keys (scope_after ps (pre @ x # bp)))"
      by (simp only: set_keys_after)
    then show ?thesis
      unfolding e using scope_inv_after by (intro locals_count_redecl)
  qed
  show ?thesis
    using c1 c2' c2 c3 c4 c5 c6 c8 c10 by blast
qed

text \<open>
  In \<^verbatim>\<open>func f(a) { let x = 1; let x = 2; let a = 3; x }\<close> the second \<^verbatim>\<open>let x\<close> replaces
  index 1 by index 2, and \<^verbatim>\<open>let a\<close> replaces the parameter by a local with index 2
  as well.
\<close>

theorem let_redeclaration_witness:
  "distinct (map decl_name let_x_x_a) \<and>
   FunctionDecl ''f'' [''a''] let_x_x_a_body \<in> set let_x_x_a \<and>
   lets_blockExpr let_x_x_a_body = [''x''] @ ''x'' # [''a''] \<and>
   ''x'' \<in> set ([''a''] @ [''x'']) \<and>
   set [''a''] \<subseteq> set ([''a''] @ [''x'']) \<and>
   function_scope let_x_x_a ''f'' = Inr (scope_after [''a''] [''x'', ''x'', ''a'']) \<and>
   scope_after [''a''] [''x'', ''x'', ''a''] =
     [(''a'', Sym \<lparr>sym_name = ''a'', idx = 2, what = Local\<rparr>),
      (''x'', Sym \<lparr>sym_name = ''x'', idx = 2, what = Local\<rparr>)] \<and>
   map_get (scope_after [''a''] [''x'']) ''x'' =
     Some (Sym \<lparr>sym_name = ''x'', idx = 1, what = Local\<rparr>) \<and>
   map_get (scope_after [''a''] [''x'', ''x'']) ''x'' =
     Some (Sym \<lparr>sym_name = ''x'', idx = 2, what = Local\<rparr>) \<and>
   (\<forall>k. set (indices (scope_after [''a''] [''x'', ''x'', ''a''])) \<noteq> {0..<k}) \<and>
   length (filter (is_what Local) (values' (scope_after [''a''] [''x'', ''x'', ''a'']))) <
     Suc (Max (set (indices (scope_after [''a''] [''x'', ''x'', ''a'']))))"
proof -
  have h1: "distinct (map decl_name let_x_x_a)"
    and h2: "FunctionDecl ''f'' [''a''] let_x_x_a_body \<in> set let_x_x_a"
    and h3: "lets_blockExpr let_x_x_a_body = [''x''] @ ''x'' # [''a'']"
    and h4: "''x'' \<in> set ([''a''] @ [''x''])"
    and h5: "set [''a''] \<subseteq> set ([''a''] @ [''x''])"
    by (simp_all add: let_x_x_a_def let_x_x_a_body_def decl_name_def var_def)
  have e: "scope_after [''a''] [''x'', ''x'', ''a''] =
     [(''a'', Sym \<lparr>sym_name = ''a'', idx = 2, what = Local\<rparr>),
      (''x'', Sym \<lparr>sym_name = ''x'', idx = 2, what = Local\<rparr>)]"
    and o: "map_get (scope_after [''a''] [''x'']) ''x'' =
     Some (Sym \<lparr>sym_name = ''x'', idx = 1, what = Local\<rparr>)"
    by (simp_all add: scope_after_def decl_def map_get_def)
  note t = let_redeclaration [OF h1 h2 h3 h4]
  have a: "[''x''] @ ''x'' # [''a''] = [''x'', ''x'', ''a'']"
    and b: "[''x''] @ [''x''] = [''x'', ''x'']"
    and c: "length (scope_after [''a''] [''x'']) = 2"
    by (simp_all add: scope_after_def decl_def)
  from t have "function_scope let_x_x_a ''f'' = Inr (scope_after [''a''] [''x'', ''x'', ''a''])"
    unfolding a by blast
  moreover from t have "map_get (scope_after [''a''] [''x'', ''x'']) ''x'' =
     Some (Sym \<lparr>sym_name = ''x'', idx = 2, what = Local\<rparr>)"
    unfolding b c by blast
  moreover from t have
    "\<forall>q k. set (indices (scope_after [''a''] ([''x''] @ ''x'' # q))) \<noteq> {0..<k}"
    by blast
  then have
    "\<forall>k. set (indices (scope_after [''a''] ([''x''] @ ''x'' # [''a'']))) \<noteq> {0..<k}"
    by blast
  then have "\<forall>k. set (indices (scope_after [''a''] [''x'', ''x'', ''a''])) \<noteq> {0..<k}"
    unfolding a .
  moreover from t have "\<forall>q. set q \<subseteq> set ([''a''] @ [''x'']) \<longrightarrow>
    length (filter (is_what Local) (values' (scope_after [''a''] ([''x''] @ ''x'' # q)))) <
     Suc (Max (set (indices (scope_after [''a''] ([''x''] @ ''x'' # q)))))"
    by blast
  then have
    "length (filter (is_what Local)
       (values' (scope_after [''a''] ([''x''] @ ''x'' # [''a''])))) <
     Suc (Max (set (indices (scope_after [''a''] ([''x''] @ ''x'' # [''a''])))))"
    using h5 by blast
  then have
    "length (filter (is_what Local) (values' (scope_after [''a''] [''x'', ''x'', ''a'']))) <
     Suc (Max (set (indices (scope_after [''a''] [''x'', ''x'', ''a'']))))"
    unfolding a .
  ultimately show ?thesis
    using h1 h2 h3 h4 h5 e o by blast
qed

text \<open>
  The claim fails in three ways.  Its "the new index differs from the replaced
  symbol's index": after \<^verbatim>\<open>let x = 1; let x = 2;\<close> the symbol of \<open>x\<close> has index 1, and
  a third \<^verbatim>\<open>let x = 3;\<close> replaces it by a symbol with index 1 again.  Its "when a let
  statement redeclares a name": in
  \<^verbatim>\<open>func f() { let x = 1; let y = if 1 { let x = 2; x } else { 0 }; y }\<close> the second
  \<^verbatim>\<open>let x\<close> stands in an initialiser, the walk does not reach it, and the scope keeps
  the indices 0 and 1.  Its "the locals count is smaller than the highest assigned
  index plus one": after \<^verbatim>\<open>let x = 1; let x = 2; let y = 3;\<close> both \<open>x\<close> and \<open>y\<close> have
  index 1, and the two "local" entries are as many as the highest index plus one.
\<close>

theorem let_redeclaration_exceptions:
  "function_scope let_x_twice ''f'' =
     Inr [(''x'', Sym \<lparr>sym_name = ''x'', idx = 1, what = Local\<rparr>)] \<and>
   function_scope let_x_thrice ''f'' =
     Inr [(''x'', Sym \<lparr>sym_name = ''x'', idx = 1, what = Local\<rparr>)] \<and>
   function_scope let_x_in_initialiser ''f'' =
     Inr [(''x'', Sym \<lparr>sym_name = ''x'', idx = 0, what = Local\<rparr>),
          (''y'', Sym \<lparr>sym_name = ''y'', idx = 1, what = Local\<rparr>)] \<and>
   function_scope let_x_x_y ''f'' =
     Inr [(''x'', Sym \<lparr>sym_name = ''x'', idx = 1, what = Local\<rparr>),
          (''y'', Sym \<lparr>sym_name = ''y'', idx = 1, what = Local\<rparr>)]"
  by code_simp

section \<open>Properties of code generation\<close>

lemma mapE_eq_Inr: "mapE f xs = Inr ys \<longleftrightarrow> list_all2 (\<lambda>x y. f x = Inr y) xs ys"
proof (induction xs arbitrary: ys)
  case Nil
  then show ?case by auto
next
  case (Cons x xs)
  then show ?case by (cases ys) (auto simp: bindE_eq_Inr)
qed

subsection \<open>The environment of code generation\<close>

text \<open>
  How \<^verbatim>\<open>compile\<close> runs the actions of \<^verbatim>\<open>toWasm\<close>.  In a module whose function names
  are pairwise distinct, the symbol table is built, the module scope lists the
  function names in declaration order and maps the name of the \<open>k\<close>-th function to
  the scope built from that function's own parameters and reached lets.
  \<^verbatim>\<open>compile\<close> is \<^verbatim>\<open>buildModule\<close> on the records of the functions, and the record of a
  function is made from the count of its "local" symbols and the code of its body,
  generated with the stack of scopes holding the module scope at the bottom and the
  function's own scope on top.
\<close>

theorem compile_environment:
  assumes names: "distinct (map decl_name m)" and k: "k < length m"
    and d: "m ! k = FunctionDecl nm ps b"
  shows "\<exists>\<sigma>. buildSymbolTable m = Inr (\<sigma>, Some (Scope 0)) \<and>
     keys (\<sigma> 0) = map decl_name m \<and>
     map_get (\<sigma> 0) nm = Some (Scope (Suc k)) \<and>
     \<sigma> (Suc k) = fn_scope (FunctionDecl nm ps b) \<and>
     compile m = bindE (functionDecls m (\<sigma>, Some (Scope 0))) buildModule \<and>
     functionDecls_FunctionDecl (FunctionDecl nm ps b) (\<sigma>, Some (Scope 0)) =
       bindE (locals (int (length (filter (is_what Local) (values' (\<sigma> (Suc k))))))
                valtype_i32) (\<lambda>ls.
       bindE (toWasm_blockExpr b (\<sigma>, [Some (Scope 0), Some (Scope (Suc k))])) (\<lambda>c.
         Inr \<lparr>fname = nm,
              paramTypes = map (\<lambda>_. valtype_i32) (filter (is_what Param) (values' (\<sigma> (Suc k)))),
              resultType = valtype_i32, flocals = [L ls], body = [L c, B instr_end]\<rparr>))"
proof -
  let ?\<sigma> = "store (walk_module m init_tables)"
  have ks: "keys (?\<sigma> 0) = map decl_name m"
    using names keys_walk_module_distinct [of init_tables m]
    by (simp add: init_tables_def keys_def)
  have nm: "map_get (?\<sigma> 0) nm = Some (Scope (Suc k))"
    using map_of_walk_module [of init_tables m k] names k
    by (simp add: init_tables_def d decl_name_def map_get_def)
  have top: "?\<sigma> (Suc k) = fn_scope (FunctionDecl nm ps b)"
    using store_walk_module_new [of init_tables k m] k by (simp add: init_tables_def d)
  have c: "compile m = bindE (functionDecls m (?\<sigma>, Some (Scope 0))) buildModule"
    by (simp add: compile_def buildSymbolTable_eq)
  have f: "functionDecls_FunctionDecl (FunctionDecl nm ps b) (?\<sigma>, Some (Scope 0)) =
       bindE (locals (int (length (filter (is_what Local) (values' (?\<sigma> (Suc k))))))
                valtype_i32) (\<lambda>ls.
       bindE (toWasm_blockExpr b (?\<sigma>, [Some (Scope 0), Some (Scope (Suc k))])) (\<lambda>c.
         Inr \<lparr>fname = nm,
              paramTypes = map (\<lambda>_. valtype_i32) (filter (is_what Param) (values' (?\<sigma> (Suc k)))),
              resultType = valtype_i32, flocals = [L ls], body = [L c, B instr_end]\<rparr>))"
    by (simp add: scope_of_def nm Let_def bindE_def split: sum.splits)
  show ?thesis
    using ks nm top c f buildSymbolTable_eq [of m] by (intro exI [of _ ?\<sigma>]) blast
qed

theorem compile_environment_witness:
  "distinct (map decl_name doIt_add) \<and> 1 < length doIt_add \<and>
   doIt_add ! 1 =
     FunctionDecl ''add'' [''x'', ''y'']
       (BlockExpr [] (Expr_binary (PrimaryExpr_var ''x'') [(''+'', PrimaryExpr_var ''y'')])) \<and>
   (\<exists>\<sigma>. buildSymbolTable doIt_add = Inr (\<sigma>, Some (Scope 0)) \<and>
      keys (\<sigma> 0) = [''doIt'', ''add''] \<and>
      map_get (\<sigma> 0) ''add'' = Some (Scope 2) \<and>
      \<sigma> 2 = table [''x'', ''y''] [])"
proof -
  let ?b = "BlockExpr [] (Expr_binary (PrimaryExpr_var ''x'') [(''+'', PrimaryExpr_var ''y'')])"
  have h1: "distinct (map decl_name doIt_add)" and h2: "1 < length doIt_add"
    and h3: "doIt_add ! 1 = FunctionDecl ''add'' [''x'', ''y''] ?b"
    and ns: "map decl_name doIt_add = [''doIt'', ''add'']"
    by (simp_all add: doIt_add_def decl_name_def)
  have fs: "fn_scope (FunctionDecl ''add'' [''x'', ''y''] ?b) = table [''x'', ''y''] []"
    using fn_scope_table [of "[''x'', ''y'']" ?b "''add''"] by simp
  from compile_environment [OF h1 h2 h3] obtain \<sigma> where
    "buildSymbolTable doIt_add = Inr (\<sigma>, Some (Scope 0))"
    "keys (\<sigma> 0) = map decl_name doIt_add"
    "map_get (\<sigma> 0) ''add'' = Some (Scope (Suc 1))"
    "\<sigma> (Suc 1) = fn_scope (FunctionDecl ''add'' [''x'', ''y''] ?b)"
    by blast
  then show ?thesis
    using h1 h2 h3 by (intro conjI exI [of _ \<sigma>]) (simp_all add: ns fs numeral_2_eq_2)
qed

subsection \<open>Calls\<close>

text \<open>
  Claim C2, for modules whose function names are pairwise distinct: the symbol table
  of the whole module is built (it never fails) before any code is generated, the
  module scope then lists the function names in declaration order, and every call
  expression naming the \<open>i\<close>-th declared function, wherever it stands (in an earlier
  function, a later one, or the function itself), passes exactly \<open>i\<close> to \<^verbatim>\<open>funcidx\<close> as
  the operand of its call instruction.
\<close>

theorem call_index:
  assumes "distinct (map decl_name m)" and "i < length m"
  shows "\<exists>\<sigma>. buildSymbolTable m = Inr (\<sigma>, Some (Scope 0)) \<and>
     keys (\<sigma> 0) = map decl_name m \<and>
     (\<forall>args sc.
        toWasm_primary (CallExpr (decl_name (m ! i)) args) (\<sigma>, Some (Scope 0) # sc) =
          bindE (if args = [] then Inr []
                 else bindE (mapE (\<lambda>a. toWasm_expr a (\<sigma>, Some (Scope 0) # sc)) args)
                        (\<lambda>cs. Inr [L (map L cs)]))
            (\<lambda>optArgs. bindE (funcidx (int i))
               (\<lambda>fi. Inr [L optArgs, L [B instr_call, L fi]])))"
proof -
  let ?\<sigma> = "store (walk_module m init_tables)"
  have k: "keys (?\<sigma> 0) = map decl_name m"
    using assms(1) keys_walk_module_distinct [of init_tables m]
    by (simp add: init_tables_def keys_def)
  have "indexOf (map decl_name m) (decl_name (m ! i)) = int i"
    using indexOf_distinct [OF assms(1), of i] assms(2) by simp
  then show ?thesis
    using k by (intro exI [of _ ?\<sigma>]) (simp add: buildSymbolTable_eq scope_of_def Let_def)
qed


theorem call_index_witness:
  "distinct (map decl_name doIt_add) \<and> 1 < length doIt_add \<and>
   decl_name (doIt_add ! 1) = ''add'' \<and>
   (\<exists>\<sigma>. buildSymbolTable doIt_add = Inr (\<sigma>, Some (Scope 0)) \<and>
     keys (\<sigma> 0) = [''doIt'', ''add''] \<and>
     toWasm_primary (CallExpr ''add'' []) (\<sigma>, [Some (Scope 0), Some (Scope 1)]) =
       Inr [L [], L [B instr_call, L [B 1]]])"
proof -
  have d: "distinct (map decl_name doIt_add)" and l: "1 < length doIt_add"
    and n: "decl_name (doIt_add ! 1) = ''add''"
    and ns: "map decl_name doIt_add = [''doIt'', ''add'']"
    by (simp_all add: doIt_add_def decl_name_def)
  from call_index [OF d l] obtain \<sigma> where
    a: "buildSymbolTable doIt_add = Inr (\<sigma>, Some (Scope 0))" and
    b: "keys (\<sigma> 0) = map decl_name doIt_add" and
    c: "\<forall>args sc.
        toWasm_primary (CallExpr (decl_name (doIt_add ! 1)) args) (\<sigma>, Some (Scope 0) # sc) =
          bindE (if args = [] then Inr []
                 else bindE (mapE (\<lambda>a. toWasm_expr a (\<sigma>, Some (Scope 0) # sc)) args)
                        (\<lambda>cs. Inr [L (map L cs)]))
            (\<lambda>optArgs. bindE (funcidx (int 1))
               (\<lambda>fi. Inr [L optArgs, L [B instr_call, L fi]]))"
    by blast
  have "toWasm_primary (CallExpr ''add'' []) (\<sigma>, [Some (Scope 0), Some (Scope 1)]) =
       Inr [L [], L [B instr_call, L [B 1]]]"
    using c [rule_format, of "[]" "[Some (Scope 1)]"] unfolding n
    by (simp add: funcidx_def del: toWasm_primary.simps)
  then show ?thesis
    using d l n a b ns by (intro conjI exI [of _ \<sigma>]) simp_all
qed

text \<open>
  Without distinct names the claim fails: in
  \<^verbatim>\<open>func f() { g() } func f() { 1 } func g() { 2 }\<close> the function \<open>g\<close> is the third
  declaration (position 2, and function 2 of the module built), but the module scope
  is \<open>[f, g]\<close> and the call \<open>g()\<close> is compiled to \<open>call 1\<close> (the bytes \<open>16, 1\<close>).
\<close>

theorem call_index_duplicate_names:
  "indexOf (map decl_name f_f_g) ''g'' = 2 \<and>
   function_scope f_f_g ''g'' = Inr [] \<and>
   compile f_f_g =
     Inr [0, 97, 115, 109, 1, 0, 0, 0,
          1, 13, 3, 96, 0, 1, 127, 96, 0, 1, 127, 96, 0, 1, 127,
          3, 4, 3, 0, 1, 2,
          7, 13, 3, 1, 102, 0, 0, 1, 102, 0, 1, 1, 103, 0, 2,
          10, 22, 3, 6, 1, 0, 127, 16, 1, 11, 6, 1, 0, 127, 65, 1, 11,
          6, 1, 0, 127, 65, 2, 11]"
  by code_simp




subsection \<open>While statements\<close>

text \<open>
  Claim C5: a while statement compiles exactly when its condition and its body do,
  and its code is then one \<open>loop\<close> with the empty block type, the condition's code, an
  \<open>if\<close> with the empty block type, the body's code, \<open>br 1\<close> (the label of the loop,
  one level above the \<open>if\<close>), and the two \<open>end\<close> markers; nothing else is emitted.
\<close>

theorem while_lowering:
  "(toWasm_statement (WhileStatement cond body') env = Inr code' \<longleftrightarrow>
      (\<exists>c b. toWasm_expr cond env = Inr c \<and>
             mapE (\<lambda>s. toWasm_statement s env) body' = Inr b \<and>
             code' = [L [B instr_loop, B blocktype_empty], L c,
                      L [B instr_if, B blocktype_empty], L (map L b),
                      L [B instr_br, B 1], B instr_end, B instr_end])) \<and>
   flatten [L [B instr_loop, B blocktype_empty], L c,
            L [B instr_if, B blocktype_empty], L (map L b),
            L [B instr_br, B 1], B instr_end, B instr_end] =
     [instr_loop, blocktype_empty] @ flatten c @ [instr_if, blocktype_empty] @
     concat (map flatten b) @ [instr_br, 1, instr_end, instr_end]"
proof -
  have "flatten (map L b) = concat (map flatten b)"
    by (induction b) simp_all
  then show ?thesis
    by (cases env) (auto simp: bindE_eq_Inr)
qed


text \<open>
  The loop of \<^verbatim>\<open>func countTo(n) { let x = 0; while x < n { x := x + 1; } x }\<close>, and the
  module compiled from this function.
\<close>

theorem while_lowering_witness:
  "toWasm_statement (WhileStatement countTo_cond countTo_body) countTo_env =
     Inr [L [B instr_loop, B blocktype_empty],
          L [L [B instr_local_get, L [B 1]], L [B instr_local_get, L [B 0]], B instr_i32_lt_s],
          L [B instr_if, B blocktype_empty],
          L [L [L [L [L [B instr_local_get, L [B 1]], L [B instr_i32_const, B 1],
                      B instr_i32_add],
                   B instr_local_tee, L [B 1]],
                B instr_drop]],
          L [B instr_br, B 1], B instr_end, B instr_end] \<and>
   function_scope [countTo] ''countTo'' = scope_of (fst countTo_env) (Some (Scope 1)) \<and>
   compile [countTo] =
     Inr [0, 97, 115, 109, 1, 0, 0, 0, 1, 6, 1, 96, 1, 127, 1, 127, 3, 2, 1, 0,
          7, 11, 1, 7, 99, 111, 117, 110, 116, 84, 111, 0, 0,
          10, 33, 1, 31, 1, 1, 127, 65, 0, 33, 1,
          3, 64, 32, 1, 32, 0, 72, 4, 64, 32, 1, 65, 1, 106, 34, 1, 26, 12, 1, 11, 11,
          32, 1, 11]"
proof -
  have f: "function_scope [countTo] ''countTo'' = scope_of (fst countTo_env) (Some (Scope 1))"
    by code_simp
  have c: "toWasm_expr countTo_cond countTo_env =
      Inr [L [B instr_local_get, L [B 1]], L [B instr_local_get, L [B 0]], B instr_i32_lt_s]"
    by code_simp
  have b: "mapE (\<lambda>s. toWasm_statement s countTo_env) countTo_body =
      Inr [[L [L [L [B instr_local_get, L [B 1]], L [B instr_i32_const, B 1],
                  B instr_i32_add],
               B instr_local_tee, L [B 1]],
            B instr_drop]]"
    by code_simp
  have m: "compile [countTo] =
     Inr [0, 97, 115, 109, 1, 0, 0, 0, 1, 6, 1, 96, 1, 127, 1, 127, 3, 2, 1, 0,
          7, 11, 1, 7, 99, 111, 117, 110, 116, 84, 111, 0, 0,
          10, 33, 1, 31, 1, 1, 127, 65, 0, 33, 1,
          3, 64, 32, 1, 32, 0, 72, 4, 64, 32, 1, 65, 1, 106, 34, 1, 26, 12, 1, 11, 11,
          32, 1, 11]"
    by code_simp
  from while_lowering [THEN conjunct1, THEN iffD2, OF exI, OF exI, OF conjI [OF c conjI [OF b refl]]]
  show ?thesis using m f by simp
qed


subsection \<open>Binary chains\<close>

lemma binaryOp_simps [simp]:
  "binaryOp ''+'' = Inr instr_i32_add"
  "binaryOp ''-'' = Inr instr_i32_sub"
  "binaryOp ''=='' = Inr instr_i32_eq"
  "binaryOp ''!='' = Inr instr_i32_ne"
  "binaryOp ''<'' = Inr instr_i32_lt_s"
  "binaryOp ''<='' = Inr instr_i32_le_s"
  "binaryOp ''>'' = Inr instr_i32_gt_s"
  "binaryOp ''>='' = Inr instr_i32_ge_s"
  "binaryOp ''and'' = Inr instr_i32_and"
  "binaryOp ''or'' = Inr instr_i32_or"
  by (simp_all add: binaryOp_def instructionByOp_def)

lemma foldl_chain:
  "foldl (\<lambda>acc (c, opc). acc @ flatten c @ [opc]) acc cs =
   acc @ concat (map (\<lambda>(c, opc). flatten c @ [opc]) cs)"
  by (induction cs arbitrary: acc) (simp_all add: case_prod_beta)

lemma flatten_pushed:
  "flatten (concat (map (\<lambda>(c, opc). [L c, B opc]) cs)) =
   concat (map (\<lambda>(c, opc). flatten c @ [opc]) cs)"
  by (induction cs) (simp_all add: case_prod_beta)

lemma flatten_chain:
  "flatten (L ca # concat (map (\<lambda>(c, opc). [L c, B opc]) cs)) =
   foldl (\<lambda>acc (c, opc). acc @ flatten c @ [opc]) (flatten ca) cs"
  by (simp add: foldl_chain flatten_pushed)

text \<open>
  Claim C7: a chain \<open>a op1 b op2 c ...\<close> compiles exactly when its operands compile and
  its operators are in the table, and its code is the left fold over the (operator,
  operand) pairs in source order: the code of the first operand, then for each pair
  the operand's code followed by the operator's one opcode.  \<open>-\<close>, \<open>and\<close> and \<open>or\<close>
  are plain opcodes like the rest: both operands are always evaluated.
\<close>

theorem binary_chain_left_fold:
  "(toWasm_expr (Expr_binary a rest) env = Inr code' \<longleftrightarrow>
      (\<exists>ca cs. toWasm_primary a env = Inr ca \<and>
         list_all2 (\<lambda>r (c, opc). toWasm_primary (snd r) env = Inr c \<and>
                                  binaryOp (fst r) = Inr opc) rest cs \<and>
         code' = L ca # concat (map (\<lambda>(c, opc). [L c, B opc]) cs))) \<and>
   flatten (L ca # concat (map (\<lambda>(c, opc). [L c, B opc]) cs)) =
     foldl (\<lambda>acc (c, opc). acc @ flatten c @ [opc]) (flatten ca) cs \<and>
   binaryOp ''-'' = Inr instr_i32_sub \<and>
   binaryOp ''and'' = Inr instr_i32_and \<and>
   binaryOp ''or'' = Inr instr_i32_or"
proof -
  obtain \<sigma> sc where env: "env = (\<sigma>, sc)" by (cases env)
  let ?f = "\<lambda>r. bindE (toWasm_primary (snd r) (\<sigma>, sc)) (\<lambda>operand.
                 bindE (binaryOp (fst r)) (\<lambda>op. Inr [L operand, B op]))"
  let ?R = "\<lambda>r (c, opc). toWasm_primary (snd r) (\<sigma>, sc) = Inr c \<and> binaryOp (fst r) = Inr opc"
  have *: "list_all2 (\<lambda>x y. ?f x = Inr y) rest pushed \<longleftrightarrow>
           (\<exists>cs. list_all2 ?R rest cs \<and> pushed = map (\<lambda>(c, opc). [L c, B opc]) cs)" for pushed
  proof (induction rest arbitrary: pushed)
    case Nil
    then show ?case by auto
  next
    case (Cons r rest)
    show ?case
    proof (cases pushed)
      case Nil
      then show ?thesis by simp
    next
      case (Cons p ps)
      show ?thesis
        unfolding Cons list_all2_Cons Cons.IH
        by (auto simp: bindE_eq_Inr list_all2_Cons1 Cons_eq_map_conv)
    qed
  qed
  have A: "toWasm_expr (Expr_binary a rest) (\<sigma>, sc) = Inr code' \<longleftrightarrow>
      (\<exists>ca pushed. toWasm_primary a (\<sigma>, sc) = Inr ca \<and> mapE ?f rest = Inr pushed \<and>
         code' = L ca # concat pushed)"
    by (auto simp: bindE_eq_Inr)
  have B: "mapE ?f rest = Inr pushed \<longleftrightarrow>
      (\<exists>cs. list_all2 ?R rest cs \<and> pushed = map (\<lambda>(c, opc). [L c, B opc]) cs)" for pushed
    unfolding mapE_eq_Inr by (rule *)
  have C: "toWasm_expr (Expr_binary a rest) (\<sigma>, sc) = Inr code' \<longleftrightarrow>
      (\<exists>ca cs. toWasm_primary a (\<sigma>, sc) = Inr ca \<and> list_all2 ?R rest cs \<and>
         code' = L ca # concat (map (\<lambda>(c, opc). [L c, B opc]) cs))"
    unfolding A B by blast
  show ?thesis
    unfolding env using C flatten_chain [of ca cs] by simp
qed


text \<open>\<^verbatim>\<open>n - x - x\<close> is compiled as \<^verbatim>\<open>(n - x) - x\<close>: \<open>n\<close>, \<open>x\<close>, \<open>sub\<close>, \<open>x\<close>, \<open>sub\<close>.\<close>

theorem binary_chain_left_fold_witness:
  "toWasm_expr n_minus_x_minus_x countTo_env =
     Inr [L [B instr_local_get, L [B 0]],
          L [B instr_local_get, L [B 1]], B instr_i32_sub,
          L [B instr_local_get, L [B 1]], B instr_i32_sub] \<and>
   flatten [L [B instr_local_get, L [B 0]],
            L [B instr_local_get, L [B 1]], B instr_i32_sub,
            L [B instr_local_get, L [B 1]], B instr_i32_sub] =
     [instr_local_get, 0, instr_local_get, 1, instr_i32_sub, instr_local_get, 1, instr_i32_sub]"
proof -
  let ?ca = "[B instr_local_get, L [B 0]]"
  let ?cs = "[([B instr_local_get, L [B 1]], instr_i32_sub),
              ([B instr_local_get, L [B 1]], instr_i32_sub)]"
  have a: "toWasm_primary (PrimaryExpr_var ''n'') countTo_env = Inr ?ca"
    by code_simp
  have x: "toWasm_primary (PrimaryExpr_var ''x'') countTo_env = Inr [B instr_local_get, L [B 1]]"
    by code_simp
  have r: "list_all2 (\<lambda>r (c, opc). toWasm_primary (snd r) countTo_env = Inr c \<and>
                                     binaryOp (fst r) = Inr opc)
             [(''-'', PrimaryExpr_var ''x''), (''-'', PrimaryExpr_var ''x'')] ?cs"
    using x by simp
  note t = binary_chain_left_fold [of "PrimaryExpr_var ''n''"
      "[(''-'', PrimaryExpr_var ''x''), (''-'', PrimaryExpr_var ''x'')]" countTo_env _ ?ca ?cs]
  from t [THEN conjunct1, THEN iffD2, OF exI, OF exI, OF conjI [OF a conjI [OF r refl]]]
  show ?thesis by (simp add: n_minus_x_minus_x_def)
qed


subsection \<open>Undeclared identifiers\<close>

lemma mapE_Inr_all: "mapE f xs = Inr ys \<Longrightarrow> x \<in> set xs \<Longrightarrow> \<exists>y. f x = Inr y"
  by (induction xs arbitrary: ys) (auto simp: bindE_eq_Inr)

lemma resolves_simps [simp]:
  "resolves env []"
  "resolves env (xs @ ys) \<longleftrightarrow> resolves env xs \<and> resolves env ys"
  "resolves (\<sigma>, sc) (x # xs) \<longleftrightarrow> (\<exists>info. resolve \<sigma> sc x = Inr info) \<and> resolves (\<sigma>, sc) xs"
  by (auto simp: resolves_def split: prod.splits)

lemma resolves_concat:
  "resolves env (concat (map g xs)) \<longleftrightarrow> (\<forall>x\<in>set xs. resolves env (g x))"
  by (induction xs) simp_all

lemma toWasm_resolves:
  "(\<forall>code. toWasm_expr e env = Inr code \<longrightarrow> resolves env (refs_expr e))"
  "(\<forall>code. toWasm_primary p env = Inr code \<longrightarrow> resolves env (refs_primary p))"
  "(\<forall>code. toWasm_ifExpr ie env = Inr code \<longrightarrow> resolves env (refs_ifExpr ie))"
  "(\<forall>code. toWasm_elseExpr ee env = Inr code \<longrightarrow> resolves env (refs_elseExpr ee))"
  "(\<forall>code. toWasm_blockExpr b env = Inr code \<longrightarrow> resolves env (refs_blockExpr b))"
  "(\<forall>code. toWasm_statement st env = Inr code \<longrightarrow> resolves env (refs_statement st))"
  "(\<forall>code. toWasm_ifStatement ist env = Inr code \<longrightarrow> resolves env (refs_ifStatement ist))"
  "(\<forall>code. toWasm_elseStatement es env = Inr code \<longrightarrow> resolves env (refs_elseStatement es))"
proof (induction e and p and ie and ee and b and st and ist and es
    rule: refs_expr_refs_primary_refs_ifExpr_refs_elseExpr_refs_blockExpr_refs_statement_refs_ifStatement_refs_elseStatement.induct)
  case (1 x e)
  then show ?case by (cases env) (auto simp: bindE_eq_Inr)
next
  case (2 p rest)
  then show ?case
    by (cases env) (fastforce simp: bindE_eq_Inr resolves_concat dest: mapE_Inr_all)
next
  case (3 n)
  then show ?case by simp
next
  case (4 f args)
  then show ?case
    by (cases env) (fastforce simp: bindE_eq_Inr resolves_concat Let_def dest: mapE_Inr_all split: if_splits)
next
  case (5 x)
  then show ?case by (cases env) (auto simp: bindE_eq_Inr)
next
  case (6 i)
  then show ?case by (cases env) auto
next
  case (7 c t e)
  then show ?case by (cases env) (auto simp: bindE_eq_Inr)
next
  case (8 b)
  then show ?case by (cases env) auto
next
  case (9 i)
  then show ?case by (cases env) auto
next
  case (10 ss e)
  then show ?case
    by (cases env) (fastforce simp: bindE_eq_Inr resolves_concat dest: mapE_Inr_all)
next
  case (11 x e)
  then show ?case by (cases env) (auto simp: bindE_eq_Inr)
next
  case (12 i)
  then show ?case by (cases env) auto
next
  case (13 c b)
  then show ?case
    by (cases env) (fastforce simp: bindE_eq_Inr resolves_concat dest: mapE_Inr_all)
next
  case (14 e)
  then show ?case by (cases env) (auto simp: bindE_eq_Inr)
next
  case (15 c t e)
  then show ?case
    by (cases env; cases e)
      (fastforce simp: bindE_eq_Inr resolves_concat dest: mapE_Inr_all)+
next
  case (16 ss)
  then show ?case
    by (cases env) (fastforce simp: bindE_eq_Inr resolves_concat dest: mapE_Inr_all)
next
  case (17 i)
  then show ?case by (cases env) auto
qed


lemma resolveSymbol_absent:
  "x \<notin> set (keys fs) \<Longrightarrow> resolveSymbol x fs = Inl (UndeclaredIdentifier x)"
  by (simp add: resolveSymbol_def map_has_def keys_def)

lemma undeclared_simps [simp]:
  "\<not> undeclared env [] err"
  "undeclared env (xs @ ys) err \<longleftrightarrow> undeclared env xs err \<or> undeclared env ys err"
  "undeclared (\<sigma>, sc) (x # xs) err \<longleftrightarrow>
     (err = UndeclaredIdentifier x \<and> resolve \<sigma> sc x = Inl (UndeclaredIdentifier x)) \<or>
     undeclared (\<sigma>, sc) xs err"
  by (auto simp: undeclared_def split: prod.splits)

lemma undeclared_concat:
  "undeclared env (concat (map g xs)) err \<longleftrightarrow> (\<exists>x\<in>set xs. undeclared env (g x) err)"
  by (induction xs) simp_all

lemma mapE_Inl_some: "mapE f xs = Inl e \<Longrightarrow> \<exists>x\<in>set xs. f x = Inl e"
  by (induction xs) (auto simp: bindE_eq_Inl)

lemma indexOf_less: "indexOf xs x < int (length xs)"
  by (induction xs) (auto simp: Let_def)

lemma binaryOp_Inl: "binaryOp op = Inl e \<Longrightarrow> map_of instructionByOp op = None"
  by (simp add: binaryOp_def split: option.splits)

lemma ready_cases:
  assumes "ready (\<sigma>, sc)"
  shows "resolve \<sigma> sc y = Inl (UndeclaredIdentifier y) \<or>
         (\<exists>sy. resolve \<sigma> sc y = Inr (Sym sy) \<and> idx sy \<le> 127)"
proof -
  from assms obtain fs where
    fs: "scope_of \<sigma> (case at_last sc of None \<Rightarrow> None | Some v \<Rightarrow> v) = Inr fs"
    and all: "list_all (\<lambda>(k, e). case e of Sym sy \<Rightarrow> idx sy \<le> 127 | Scope a \<Rightarrow> False) fs"
    unfolding ready_def by (auto split: sum.splits)
  have r: "resolve \<sigma> sc y = resolveSymbol y fs"
    by (simp add: resolve_def fs)
  show ?thesis
  proof (cases "map_of fs y")
    case None
    then show ?thesis by (simp add: r resolveSymbol_eq)
  next
    case (Some info)
    then have "(y, info) \<in> set fs" by (rule map_of_SomeD)
    then obtain sy where "info = Sym sy" "idx sy \<le> 127"
      using all by (cases info) (auto simp: list_all_iff)
    then show ?thesis using Some by (simp add: r resolveSymbol_eq)
  qed
qed

lemma ready_resolve:
  assumes "ready (\<sigma>, sc)" and "resolve \<sigma> sc y = Inl err"
  shows "err = UndeclaredIdentifier y"
  using ready_cases [OF assms(1), of y] assms(2) by auto

lemma ready_localidx:
  assumes "ready (\<sigma>, sc)" and "resolve \<sigma> sc y = Inr info"
  shows "\<exists>i. localidx_of info = Inr i"
proof -
  obtain sy where "info = Sym sy" "idx sy \<le> 127"
    using ready_cases [OF assms(1), of y] assms(2) by auto
  then show ?thesis by (simp add: localidx_of_def localidx_def)
qed

lemma ready_scope:
  assumes "ready (\<sigma>, sc)"
  shows "\<exists>ms. scope_of \<sigma> (case sc of [] \<Rightarrow> None | v # vs \<Rightarrow> v) = Inr ms \<and> length ms \<le> 128"
  using assms unfolding ready_def by (auto split: sum.splits)

lemma ready_funcidx:
  assumes "ready (\<sigma>, sc)"
    and "scope_of \<sigma> (case sc of [] \<Rightarrow> None | v # vs \<Rightarrow> v) = Inr ms"
  shows "\<exists>i. funcidx (indexOf (keys ms) nm) = Inr i"
proof -
  have "length ms \<le> 128"
    using ready_scope [OF assms(1)] assms(2) by auto
  then have "indexOf (keys ms) nm \<le> 127"
    using indexOf_less [of "keys ms" nm] by (simp add: keys_def)
  then show ?thesis by (simp add: funcidx_def)
qed

lemma toWasm_errors:
  assumes r: "ready (\<sigma>, sc)"
  shows
  "(\<forall>err. encodable_expr e \<longrightarrow> toWasm_expr e (\<sigma>, sc) = Inl err \<longrightarrow>
      undeclared (\<sigma>, sc) (refs_expr e) err)"
  "(\<forall>err. encodable_primary p \<longrightarrow> toWasm_primary p (\<sigma>, sc) = Inl err \<longrightarrow>
      undeclared (\<sigma>, sc) (refs_primary p) err)"
  "(\<forall>err. encodable_ifExpr ie \<longrightarrow> toWasm_ifExpr ie (\<sigma>, sc) = Inl err \<longrightarrow>
      undeclared (\<sigma>, sc) (refs_ifExpr ie) err)"
  "(\<forall>err. encodable_elseExpr ee \<longrightarrow> toWasm_elseExpr ee (\<sigma>, sc) = Inl err \<longrightarrow>
      undeclared (\<sigma>, sc) (refs_elseExpr ee) err)"
  "(\<forall>err. encodable_blockExpr b \<longrightarrow> toWasm_blockExpr b (\<sigma>, sc) = Inl err \<longrightarrow>
      undeclared (\<sigma>, sc) (refs_blockExpr b) err)"
  "(\<forall>err. encodable_statement st \<longrightarrow> toWasm_statement st (\<sigma>, sc) = Inl err \<longrightarrow>
      undeclared (\<sigma>, sc) (refs_statement st) err)"
  "(\<forall>err. encodable_ifStatement ist \<longrightarrow> toWasm_ifStatement ist (\<sigma>, sc) = Inl err \<longrightarrow>
      undeclared (\<sigma>, sc) (refs_ifStatement ist) err)"
  "(\<forall>err. encodable_elseStatement es \<longrightarrow> toWasm_elseStatement es (\<sigma>, sc) = Inl err \<longrightarrow>
      undeclared (\<sigma>, sc) (refs_elseStatement es) err)"
proof (induction e and p and ie and ee and b and st and ist and es
    rule: refs_expr_refs_primary_refs_ifExpr_refs_elseExpr_refs_blockExpr_refs_statement_refs_ifStatement_refs_elseStatement.induct)
  case (1 x e)
  show ?case
  proof (intro allI impI)
    fix err
    assume enc: "encodable_expr (AssignmentExpr x e)"
      and f: "toWasm_expr (AssignmentExpr x e) (\<sigma>, sc) = Inl err"
    show "undeclared (\<sigma>, sc) (refs_expr (AssignmentExpr x e)) err"
    proof (cases "resolve \<sigma> sc x")
      case (Inl a)
      then show ?thesis using f ready_resolve [OF r Inl] by simp
    next
      case (Inr info)
      obtain i where i: "localidx_of info = Inr i"
        using ready_localidx [OF r Inr] by blast
      from f Inr i have "toWasm_expr e (\<sigma>, sc) = Inl err"
        by (cases "toWasm_expr e (\<sigma>, sc)") simp_all
      then show ?thesis using 1 enc by simp
    qed
  qed
next
  case (2 p rest)
  show ?case
  proof (intro allI impI)
    fix err
    assume enc: "encodable_expr (Expr_binary p rest)"
      and f: "toWasm_expr (Expr_binary p rest) (\<sigma>, sc) = Inl err"
    show "undeclared (\<sigma>, sc) (refs_expr (Expr_binary p rest)) err"
    proof (cases "toWasm_primary p (\<sigma>, sc)")
      case (Inl a)
      then show ?thesis using f 2(1) enc by simp
    next
      case (Inr c)
      from f Inr have "mapE (\<lambda>r. bindE (toWasm_primary (snd r) (\<sigma>, sc)) (\<lambda>operand.
                        bindE (binaryOp (fst r)) (\<lambda>op. Inr [L operand, B op]))) rest = Inl err"
        by (simp add: bindE_eq_Inl)
      then obtain q where q: "q \<in> set rest"
        and qf: "bindE (toWasm_primary (snd q) (\<sigma>, sc)) (\<lambda>operand.
                        bindE (binaryOp (fst q)) (\<lambda>op. Inr [L operand, B op])) = Inl err"
        using mapE_Inl_some by fast
      have "map_of instructionByOp (fst q) \<noteq> None" and eq: "encodable_primary (snd q)"
        using enc q by auto
      then have "toWasm_primary (snd q) (\<sigma>, sc) = Inl err"
        using qf by (auto simp: bindE_eq_Inl dest: binaryOp_Inl)
      then have "undeclared (\<sigma>, sc) (refs_primary (snd q)) err"
        using 2(2) [OF q] eq by simp
      then show ?thesis using q by (auto simp: undeclared_concat)
    qed
  qed
next
  case (3 n)
  then show ?case by (simp add: bindE_eq_Inl)
next
  case (4 f args)
  show ?case
  proof (intro allI impI)
    fix err
    assume enc: "encodable_primary (CallExpr f args)"
      and fl: "toWasm_primary (CallExpr f args) (\<sigma>, sc) = Inl err"
    obtain ms where ms: "scope_of \<sigma> (case sc of [] \<Rightarrow> None | v # vs \<Rightarrow> v) = Inr ms"
      using ready_scope [OF r] by blast
    obtain i where i: "funcidx (indexOf (keys ms) f) = Inr i"
      using ready_funcidx [OF r ms] by blast
    from fl ms i have ne: "args \<noteq> []"
      and "mapE (\<lambda>a. toWasm_expr a (\<sigma>, sc)) args = Inl err"
      by (auto simp: Let_def bindE_eq_Inl split: if_splits)
    then obtain a where a: "a \<in> set args" and "toWasm_expr a (\<sigma>, sc) = Inl err"
      using mapE_Inl_some by fast
    then have "undeclared (\<sigma>, sc) (refs_expr a) err"
      using 4 [OF a] enc by simp
    then show "undeclared (\<sigma>, sc) (refs_primary (CallExpr f args)) err"
      using a by (auto simp: undeclared_concat)
  qed
next
  case (5 x)
  show ?case
  proof (intro allI impI)
    fix err
    assume f: "toWasm_primary (PrimaryExpr_var x) (\<sigma>, sc) = Inl err"
    show "undeclared (\<sigma>, sc) (refs_primary (PrimaryExpr_var x)) err"
    proof (cases "resolve \<sigma> sc x")
      case (Inl a)
      then show ?thesis using f ready_resolve [OF r Inl] by simp
    next
      case (Inr info)
      obtain i where i: "localidx_of info = Inr i"
        using ready_localidx [OF r Inr] by blast
      then show ?thesis using f Inr by simp
    qed
  qed
next
  case (6 i)
  then show ?case by simp
next
  case (7 c t e)
  then show ?case by (auto simp: bindE_eq_Inl)
next
  case (8 b)
  then show ?case by simp
next
  case (9 i)
  then show ?case by simp
next
  case (10 ss e)
  show ?case
  proof (intro allI impI)
    fix err
    assume enc: "encodable_blockExpr (BlockExpr ss e)"
      and f: "toWasm_blockExpr (BlockExpr ss e) (\<sigma>, sc) = Inl err"
    then consider "mapE (\<lambda>s. toWasm_statement s (\<sigma>, sc)) ss = Inl err"
      | "toWasm_expr e (\<sigma>, sc) = Inl err"
      by (auto simp: bindE_eq_Inl)
    then show "undeclared (\<sigma>, sc) (refs_blockExpr (BlockExpr ss e)) err"
    proof cases
      case 1
      then obtain s where s: "s \<in> set ss" and "toWasm_statement s (\<sigma>, sc) = Inl err"
        using mapE_Inl_some by fast
      then have "undeclared (\<sigma>, sc) (refs_statement s) err"
        using 10(1) [OF s] enc by simp
      then show ?thesis using s by (auto simp: undeclared_concat)
    next
      case 2
      then show ?thesis using 10(2) enc by simp
    qed
  qed
next
  case (11 x e)
  show ?case
  proof (intro allI impI)
    fix err
    assume enc: "encodable_statement (LetStatement x e)"
      and f: "toWasm_statement (LetStatement x e) (\<sigma>, sc) = Inl err"
    show "undeclared (\<sigma>, sc) (refs_statement (LetStatement x e)) err"
    proof (cases "resolve \<sigma> sc x")
      case (Inl a)
      then show ?thesis using f ready_resolve [OF r Inl] by simp
    next
      case (Inr info)
      obtain i where i: "localidx_of info = Inr i"
        using ready_localidx [OF r Inr] by blast
      from f Inr i have "toWasm_expr e (\<sigma>, sc) = Inl err"
        by (cases "toWasm_expr e (\<sigma>, sc)") simp_all
      then show ?thesis using 11 enc by simp
    qed
  qed
next
  case (12 i)
  then show ?case by simp
next
  case (13 c b)
  show ?case
  proof (intro allI impI)
    fix err
    assume enc: "encodable_statement (WhileStatement c b)"
      and f: "toWasm_statement (WhileStatement c b) (\<sigma>, sc) = Inl err"
    then consider "toWasm_expr c (\<sigma>, sc) = Inl err"
      | "mapE (\<lambda>s. toWasm_statement s (\<sigma>, sc)) b = Inl err"
      by (auto simp: bindE_eq_Inl)
    then show "undeclared (\<sigma>, sc) (refs_statement (WhileStatement c b)) err"
    proof cases
      case 1
      then show ?thesis using 13(1) enc by simp
    next
      case 2
      then obtain s where s: "s \<in> set b" and "toWasm_statement s (\<sigma>, sc) = Inl err"
        using mapE_Inl_some by fast
      then have "undeclared (\<sigma>, sc) (refs_statement s) err"
        using 13(2) [OF s] enc by simp
      then show ?thesis using s by (auto simp: undeclared_concat)
    qed
  qed
next
  case (14 e)
  then show ?case by (auto simp: bindE_eq_Inl)
next
  case (15 c t e)
  show ?case
  proof (intro allI impI)
    fix err
    assume enc: "encodable_ifStatement (IfStatement c t e)"
      and f: "toWasm_ifStatement (IfStatement c t e) (\<sigma>, sc) = Inl err"
    then consider
        (el) e' where "e = Some e'" "toWasm_elseStatement e' (\<sigma>, sc) = Inl err"
      | (co) "toWasm_expr c (\<sigma>, sc) = Inl err"
      | (th) "mapE (\<lambda>s. toWasm_statement s (\<sigma>, sc)) t = Inl err"
      by (cases e) (auto simp: bindE_eq_Inl)
    then show "undeclared (\<sigma>, sc) (refs_ifStatement (IfStatement c t e)) err"
    proof cases
      case el
      then show ?thesis using 15(3) enc by simp
    next
      case co
      then show ?thesis using 15(1) enc by simp
    next
      case th
      then obtain s where s: "s \<in> set t" and "toWasm_statement s (\<sigma>, sc) = Inl err"
        using mapE_Inl_some by fast
      then have "undeclared (\<sigma>, sc) (refs_statement s) err"
        using 15(2) [OF s] enc by simp
      then show ?thesis using s by (auto simp: undeclared_concat)
    qed
  qed
next
  case (16 ss)
  show ?case
  proof (intro allI impI)
    fix err
    assume enc: "encodable_elseStatement (ElseBlockStatements ss)"
      and f: "toWasm_elseStatement (ElseBlockStatements ss) (\<sigma>, sc) = Inl err"
    then have "mapE (\<lambda>s. toWasm_statement s (\<sigma>, sc)) ss = Inl err"
      by (auto simp: bindE_eq_Inl)
    then obtain s where s: "s \<in> set ss" and "toWasm_statement s (\<sigma>, sc) = Inl err"
      using mapE_Inl_some by fast
    then have "undeclared (\<sigma>, sc) (refs_statement s) err"
      using 16 [OF s] enc by simp
    then show "undeclared (\<sigma>, sc) (refs_elseStatement (ElseBlockStatements ss)) err"
      using s by (auto simp: undeclared_concat)
  qed
next
  case (17 i)
  then show ?case by simp
qed


lemma ready_function:
  assumes "distinct (map decl_name m)" and "k < length m" and "length m \<le> 128"
    and "length (fn_scope (m ! k)) \<le> 127"
  shows "ready (store (walk_module m init_tables), [Some (Scope 0), Some (Scope (1 + k))])"
proof -
  let ?\<sigma> = "store (walk_module m init_tables)"
  have top: "?\<sigma> (Suc k) = fn_scope (m ! k)"
    using store_walk_module_new [of init_tables k m] assms(2) by (simp add: init_tables_def)
  have "keys (?\<sigma> 0) = map decl_name m"
    using keys_walk_module_distinct [of init_tables m] assms(1)
    by (simp add: init_tables_def keys_def)
  then have "length (?\<sigma> 0) = length m"
    unfolding keys_def using length_map [of fst "?\<sigma> 0"] by simp
  moreover have "list_all (\<lambda>(k, e). case e of Sym sy \<Rightarrow> idx sy \<le> 127 | Scope a \<Rightarrow> False)
      (fn_scope (m ! k))"
    using scope_inv_fn_scope [of "m ! k"] assms(4)
    by (auto simp: scope_inv_def list_all_iff split: entry.splits)
  ultimately show ?thesis
    using assms(3) by (simp add: ready_def scope_of_def at_last_def top)
qed

lemma functionDecls_FunctionDecl_error:
  assumes names: "distinct (map decl_name m)" and k: "k < length m"
    and d: "m ! k = FunctionDecl nm ps b"
    and len: "length m \<le> 128" and size: "length (fn_scope (FunctionDecl nm ps b)) \<le> 127"
    and enc: "encodable_blockExpr b"
    and f: "functionDecls_FunctionDecl (FunctionDecl nm ps b)
              (store (walk_module m init_tables), Some (Scope 0)) = Inl err"
  shows "\<exists>y\<in>set (refs_blockExpr b).
           y \<notin> set (ps @ lets_blockExpr b) \<and> err = UndeclaredIdentifier y"
proof -
  let ?\<sigma> = "store (walk_module m init_tables)"
  let ?sc = "[Some (Scope 0), Some (Scope (Suc k))]"
  let ?fs = "fn_scope (FunctionDecl nm ps b)"
  have r: "ready (?\<sigma>, ?sc)"
    using ready_function [OF names k len] size by (simp add: d)
  have nm: "map_get (?\<sigma> 0) nm = Some (Scope (Suc k))"
    using map_of_walk_module [of init_tables m k] names k
    by (simp add: init_tables_def d decl_name_def map_get_def)
  have top: "?\<sigma> (Suc k) = ?fs"
    using store_walk_module_new [of init_tables k m] k by (simp add: init_tables_def d)
  have "length (filter (is_what Local) (values' ?fs)) \<le> length (values' ?fs)"
    by (rule length_filter_le)
  also have "\<dots> = length ?fs"
    by (simp add: values'_def)
  finally have "length (filter (is_what Local) (values' ?fs)) \<le> 127"
    using size by simp
  then obtain ls where ls:
    "locals (int (length (filter (is_what Local) (values' ?fs)))) valtype_i32 = Inr ls"
    by (simp add: locals_def)
  have "toWasm_blockExpr b (?\<sigma>, ?sc) = Inl err"
    using f ls by (simp add: scope_of_def nm top Let_def bindE_eq_Inl)
  then have "undeclared (?\<sigma>, ?sc) (refs_blockExpr b) err"
    using toWasm_errors(5) [OF r] enc by blast
  then obtain y where y: "y \<in> set (refs_blockExpr b)" and e: "err = UndeclaredIdentifier y"
    and u: "resolve ?\<sigma> ?sc y = Inl (UndeclaredIdentifier y)"
    by (auto simp: undeclared_def)
  have "resolveSymbol y ?fs = Inl (UndeclaredIdentifier y)"
    using u by (simp add: resolve_def at_last_def scope_of_def top)
  then have "map_of ?fs y = None"
    by (simp add: resolveSymbol_eq split: option.splits)
  then have "y \<notin> set (keys ?fs)"
    by (simp add: map_of_eq_None_iff keys_def)
  then have "y \<notin> set (ps @ lets_blockExpr b)"
    unfolding keys_fn_scope .
  then show ?thesis using y e by blast
qed

text \<open>
  Claim C6, as the code has it.  In a module whose function names are pairwise
  distinct, the scope that code generation reads for a function is the one built from
  its own parameters and the lets that the walk reaches.  Let \<open>x\<close> be a plain
  identifier reference of the body (a variable read, an assignment target or a let
  target) that is none of these names.  Then the action of the reference raises
  "undeclared identifier \<open>x\<close>" whenever the function's scope is on top of the stack,
  whatever the scopes below it hold: there is no look-up in an outer scope and no
  default index.  \<^verbatim>\<open>compile\<close> raises and returns no bytes.  The error it raises is
  the first one in the order of evaluation: when no encoder and no operator look-up
  can raise (\<open>encodable\<close>), it is "undeclared identifier" for a reference of some
  function that is absent from the scope of that function.
\<close>

theorem undeclared_identifier_aborts:
  assumes names: "distinct (map decl_name m)"
    and d: "FunctionDecl nm ps b \<in> set m"
    and x: "x \<in> set (refs_blockExpr b)"
    and absent: "x \<notin> set (ps @ lets_blockExpr b)"
  shows "function_scope m nm = Inr (fn_scope (FunctionDecl nm ps b)) \<and>
     set (keys (fn_scope (FunctionDecl nm ps b))) = set (ps @ lets_blockExpr b) \<and>
     (\<exists>err. compile m = Inl err) \<and>
     (encodable m \<longrightarrow>
        (\<exists>nm' ps' b' y.
           FunctionDecl nm' ps' b' \<in> set m \<and> y \<in> set (refs_blockExpr b') \<and>
           y \<notin> set (ps' @ lets_blockExpr b') \<and>
           compile m = Inl (UndeclaredIdentifier y))) \<and>
     (\<forall>\<sigma> sc e.
        scope_of \<sigma> (case at_last sc of None \<Rightarrow> None | Some v \<Rightarrow> v) =
          Inr (fn_scope (FunctionDecl nm ps b)) \<longrightarrow>
        toWasm_primary (PrimaryExpr_var x) (\<sigma>, sc) = Inl (UndeclaredIdentifier x) \<and>
        toWasm_expr (AssignmentExpr x e) (\<sigma>, sc) = Inl (UndeclaredIdentifier x) \<and>
        toWasm_statement (LetStatement x e) (\<sigma>, sc) = Inl (UndeclaredIdentifier x))"
proof -
  let ?\<sigma> = "store (walk_module m init_tables)"
  let ?sy = "Some (Scope 0)"
  let ?fs = "fn_scope (FunctionDecl nm ps b)"
  obtain k where k: "k < length m" and mk: "m ! k = FunctionDecl nm ps b"
    using d by (auto simp: in_set_conv_nth)
  have fs: "function_scope m nm = Inr ?fs"
    using function_scope_eq [OF names k] by (simp add: mk decl_name_def)
  have ks: "set (keys ?fs) = set (ps @ lets_blockExpr b)"
    by (rule keys_fn_scope)
  have r: "resolveSymbol x ?fs = Inl (UndeclaredIdentifier x)"
    using absent ks by (intro resolveSymbol_absent) simp
  have sc: "scope_of ?\<sigma> (map_get (?\<sigma> 0) nm) = Inr ?fs"
    using fs by (simp add: function_scope_def buildSymbolTable_eq scope_of_def)
  have no: "functionDecls m (?\<sigma>, ?sy) \<noteq> Inr decls" for decls
  proof
    assume "functionDecls m (?\<sigma>, ?sy) = Inr decls"
    then obtain fd where
      "functionDecls_FunctionDecl (FunctionDecl nm ps b) (?\<sigma>, ?sy) = Inr fd"
      unfolding functionDecls_def using mapE_Inr_all [OF _ d] by blast
    then obtain c where
      "toWasm_blockExpr b (?\<sigma>, [?sy, map_get (?\<sigma> 0) nm]) = Inr c"
      by (auto simp: bindE_eq_Inr Let_def scope_of_def)
    then have "resolves (?\<sigma>, [?sy, map_get (?\<sigma> 0) nm]) (refs_blockExpr b)"
      using toWasm_resolves(5) by blast
    then obtain info where "resolve ?\<sigma> [?sy, map_get (?\<sigma> 0) nm] x = Inr info"
      using x by (auto simp: resolves_def list_all_iff)
    then show False
      using sc r by (simp add: resolve_def at_last_def)
  qed
  then obtain err where err: "functionDecls m (?\<sigma>, ?sy) = Inl err"
    by (cases "functionDecls m (?\<sigma>, ?sy)") auto
  then have c: "compile m = Inl err"
    by (simp add: compile_def buildSymbolTable_eq)
  have 1: "\<exists>err. compile m = Inl err"
    using c by blast
  have 3: "\<exists>nm' ps' b' y.
           FunctionDecl nm' ps' b' \<in> set m \<and> y \<in> set (refs_blockExpr b') \<and>
           y \<notin> set (ps' @ lets_blockExpr b') \<and>
           compile m = Inl (UndeclaredIdentifier y)" if enc: "encodable m"
  proof -
    obtain d' where d': "d' \<in> set m"
      and f: "functionDecls_FunctionDecl d' (?\<sigma>, ?sy) = Inl err"
      using err unfolding functionDecls_def using mapE_Inl_some by fast
    obtain j where j: "j < length m" and mj: "m ! j = d'"
      using d' by (auto simp: in_set_conv_nth)
    obtain nm' ps' b' where e: "d' = FunctionDecl nm' ps' b'"
      by (cases d')
    have len: "length m \<le> 128"
      and size: "length (fn_scope (FunctionDecl nm' ps' b')) \<le> 127"
      and eb: "encodable_blockExpr b'"
      using enc d' e unfolding encodable_def by auto
    obtain y where "y \<in> set (refs_blockExpr b')" "y \<notin> set (ps' @ lets_blockExpr b')"
      "err = UndeclaredIdentifier y"
      using functionDecls_FunctionDecl_error [OF names j _ len size eb, of err]
        f mj e by auto
    then show ?thesis using d' e c by blast
  qed
  have 2: "toWasm_primary (PrimaryExpr_var x) (\<sigma>, sc) = Inl (UndeclaredIdentifier x) \<and>
        toWasm_expr (AssignmentExpr x e) (\<sigma>, sc) = Inl (UndeclaredIdentifier x) \<and>
        toWasm_statement (LetStatement x e) (\<sigma>, sc) = Inl (UndeclaredIdentifier x)"
    if "scope_of \<sigma> (case at_last sc of None \<Rightarrow> None | Some v \<Rightarrow> v) = Inr ?fs" for \<sigma> sc e
    using that r by (simp add: resolve_def)
  show ?thesis using fs ks 1 2 3 by blast
qed

text \<open>
  In \<^verbatim>\<open>func f(a) { a } func g() { a }\<close> the parameter of \<open>f\<close> is not visible in \<open>g\<close>.
\<close>

theorem undeclared_identifier_aborts_witness:
  "distinct (map decl_name reads_other_scope) \<and>
   FunctionDecl ''g'' [] (BlockExpr [] (var ''a'')) \<in> set reads_other_scope \<and>
   ''a'' \<in> set (refs_blockExpr (BlockExpr [] (var ''a''))) \<and>
   ''a'' \<notin> set ([] @ lets_blockExpr (BlockExpr [] (var ''a''))) \<and>
   encodable reads_other_scope \<and>
   function_scope reads_other_scope ''g'' = Inr [] \<and>
   compile reads_other_scope = Inl (UndeclaredIdentifier ''a'') \<and>
   toWasm_primary (PrimaryExpr_var ''a'')
     ((\<lambda>a. [])(0 := [(''f'', Scope 1), (''g'', Scope 2)],
                1 := [(''a'', Sym \<lparr>sym_name = ''a'', idx = 0, what = Param\<rparr>)]),
      [Some (Scope 0), Some (Scope 2)]) =
     Inl (UndeclaredIdentifier ''a'')"
proof -
  let ?g = "FunctionDecl ''g'' [] (BlockExpr [] (var ''a''))"
  let ?\<sigma> = "(\<lambda>a. [])(0 := [(''f'', Scope 1), (''g'', Scope (2::nat))],
                 1 := [(''a'', Sym \<lparr>sym_name = ''a'', idx = 0, what = Param\<rparr>)])"
  have h1: "distinct (map decl_name reads_other_scope)"
    and h2: "?g \<in> set reads_other_scope"
    and h3: "''a'' \<in> set (refs_blockExpr (BlockExpr [] (var ''a'')))"
    and h4: "''a'' \<notin> set ([] @ lets_blockExpr (BlockExpr [] (var ''a'')))"
    by (simp_all add: reads_other_scope_def var_def decl_name_def)
  have h5: "encodable reads_other_scope"
    by (simp add: encodable_def reads_other_scope_def var_def fn_scope_def decl_def)
  have fs: "fn_scope ?g = []"
    by (simp add: fn_scope_def var_def)
  have top: "scope_of ?\<sigma>
      (case at_last [Some (Scope 0), Some (Scope 2)] of None \<Rightarrow> None | Some v \<Rightarrow> v) =
      Inr (fn_scope ?g)"
    by (simp add: scope_of_def at_last_def fs)
  note u = undeclared_identifier_aborts [OF h1 h2 h3 h4]
  from u have a: "function_scope reads_other_scope ''g'' = Inr []"
    unfolding fs by blast
  from u h5 obtain nm' ps' b' y where
    "FunctionDecl nm' ps' b' \<in> set reads_other_scope" "y \<in> set (refs_blockExpr b')"
    "y \<notin> set (ps' @ lets_blockExpr b')"
    and c: "compile reads_other_scope = Inl (UndeclaredIdentifier y)"
    by blast
  then have "y = ''a''"
    by (auto simp: reads_other_scope_def var_def)
  then have b: "compile reads_other_scope = Inl (UndeclaredIdentifier ''a'')"
    using c by simp
  from u top have "toWasm_primary (PrimaryExpr_var ''a'') (?\<sigma>, [Some (Scope 0), Some (Scope 2)]) =
     Inl (UndeclaredIdentifier ''a'')"
    by blast
  then show ?thesis using h1 h2 h3 h4 h5 a b by blast
qed

text \<open>
  The claim fails in two ways.  Its "raises an undeclared-identifier error": in
  \<^verbatim>\<open>func f() { 64 + y }\<close> the literal 64 is encoded before \<open>y\<close> is resolved, and
  \<^verbatim>\<open>compile\<close> raises "Not Implemented".  Its "for every reference whose name is absent
  from the current function's scope": where two functions share a name, the module
  scope maps the name to the scope of the last one and code generation reads that
  scope for both, so in \<^verbatim>\<open>func f(a) { b } func f(b) { b }\<close> the \<open>b\<close> of the first
  function, which declares no \<open>b\<close>, is compiled to \<^verbatim>\<open>local.get 0\<close>.
\<close>

theorem undeclared_identifier_exceptions:
  "compile sixty_four_plus_y = Inl NotImplemented \<and>
   function_scope same_name_other_scope ''f'' =
     Inr [(''b'', Sym \<lparr>sym_name = ''b'', idx = 0, what = Param\<rparr>)] \<and>
   compile same_name_other_scope =
     Inr [0, 97, 115, 109, 1, 0, 0, 0, 1, 11, 2, 96, 1, 127, 1, 127, 96, 1, 127,
          1, 127, 3, 3, 2, 0, 1, 7, 9, 2, 1, 102, 0, 0, 1, 102, 0, 1, 10, 15, 2,
          6, 1, 0, 127, 32, 0, 11, 6, 1, 0, 127, 32, 0, 11]"
  by code_simp

section \<open>Properties of the module builder\<close>






lemma magic_version [simp]:
  "flatten magic = [0x00, 0x61, 0x73, 0x6d]" "flatten version = [0x01, 0x00, 0x00, 0x00]"
  by (simp_all add: magic_def version_def stringToBytes_def int32ToBytes_def)


lemma length_stringToBytes [simp]: "length (stringToBytes s) = length s"
  by (simp add: stringToBytes_def)






end
